theory Spec2Isabelle
  imports Main
begin

section \<open>Echo runtime agent: data model\<close>

text \<open>
  The agent of \<^verbatim>\<open>src/runtime-agent.ts\<close> talks to an external event-sourced store.
  The store itself (its tables, its materialisers, its conflict detection), the clock and
  the random source are not part of the repository: they are inputs of the model. Every
  effect the agent performs is appended to a trace, in program order, so that orderings
  between commits, console output and teardown steps can be stated.

  A call of \<^verbatim>\<open>store.commit\<close> may throw, as the handlers around every such call in the
  source expect. A call of \<^verbatim>\<open>store.query\<close> is taken to return its rows, and the console
  and the clock are taken not to throw. The loop of lines 466 to 468, which only keeps the
  process alive until the flag is set, has no effect of its own and is left out.
\<close>

type_synonym timestamp = int
  \<comment> \<open>\<^verbatim>\<open>Date#getTime()\<close>: milliseconds since the epoch\<close>

text \<open>
  A thrown JavaScript value: an \<^verbatim>\<open>Error\<close> instance with its message, or any other
  value with its \<^verbatim>\<open>String(...)\<close> rendering.
\<close>

datatype thrown = ErrorObj string | NonError string

text \<open>\<^verbatim>\<open>error instanceof Error ? error.message : String(error)\<close> (line 267).\<close>

fun error_message :: "thrown \<Rightarrow> string" where
  "error_message (ErrorObj m) = m"
| "error_message (NonError s) = s"

text \<open>A row of the cells table; \<^verbatim>\<open>source\<close> may be null.\<close>

record cell =
  cell_id :: string
  cellType :: string
  source :: "string option"

text \<open>A row of the execution queue (\<^verbatim>\<open>queueEntry.id\<close> is \<open>entry_id\<close>).\<close>

record queue_entry =
  entry_id :: string
  cellId :: string
  status :: string
  priority :: int

record kernel_session =
  sessionId :: string
  isActive :: bool

text \<open>The two identifiers fixed at startup (lines 76 and 102).\<close>

record ident =
  KERNEL_ID :: string
  SESSION_ID :: string

text \<open>
  The events the agent commits, with the payload fields in the order of the source:
  \<^item> \<open>KernelSessionStarted sessionId kernelId kernelType canExecuteCode canExecuteSql canExecuteAi\<close>
  \<^item> \<open>KernelSessionHeartbeat sessionId status timestamp\<close>
  \<^item> \<open>KernelSessionTerminated sessionId reason\<close>
  \<^item> \<open>ExecutionAssigned queueId kernelSessionId\<close>
  \<^item> \<open>ExecutionStarted queueId cellId kernelSessionId startedAt\<close>
  \<^item> \<open>CellOutputsCleared cellId clearedBy\<close>
  \<^item> \<open>CellOutputAdded id cellId outputType text position\<close>, where \<open>text\<close> is the
    \<^verbatim>\<open>text/plain\<close> entry of \<^verbatim>\<open>data\<close> (its only entry); \<^verbatim>\<open>metadata\<close> is always empty
  \<^item> \<open>ExecutionCompleted queueId cellId status error completedAt executionDurationMs\<close>
\<close>

datatype event =
    KernelSessionStarted string string string bool bool bool
  | KernelSessionHeartbeat string string timestamp
  | KernelSessionTerminated string string
  | ExecutionAssigned string string
  | ExecutionStarted string string string timestamp
  | CellOutputsCleared string string
  | CellOutputAdded string string string string nat
  | ExecutionCompleted string string string "string option" timestamp int

text \<open>
  Console messages, one constructor per call site (the decorative glyphs of the source
  are left out).
\<close>

datatype message =
    MsgHelp
  | MsgAuthTokenRequired
  | MsgAuthTokenProvideVia
  | MsgNotebookIdRequired
  | MsgNotebookIdProvideVia
  | MsgNotebookIdExample
  | MsgUseHelp
  | MsgStarting string
  | MsgConnected
  | MsgRegisterFailed thrown
  | MsgProcessing string
  | MsgCompleted int
  | MsgExecutionError thrown
  | MsgMarkFailedError thrown
  | MsgProcessingError string thrown
  | MsgPending nat
  | MsgHeartbeatFailed thrown
  | MsgShuttingDown
  | MsgTerminatedFailed thrown
  | MsgUnhandledRejection thrown
  | MsgUncaughtError thrown
  | MsgPressCtrlC

datatype subscription = AssignedWork | PendingWork | ActiveKernels

text \<open>
  Observable effects. \<open>Commit e\<close> is a call of \<^verbatim>\<open>store.commit\<close> that returned;
  \<open>CommitThrew e x\<close> is a call that threw \<open>x\<close> (the event is not in the log).
  \<open>Invoked q\<close> marks the call \<^verbatim>\<open>processExecution(queueEntry)\<close> of line 335 for the
  entry with identifier \<open>q\<close>.
\<close>

datatype effect =
    ConsoleLog message
  | ConsoleWarn message
  | ConsoleError message
  | Commit event
  | CommitThrew event thrown
  | Invoked string
  | Subscribe subscription
  | Unsubscribe subscription
  | SetInterval
  | ClearInterval
  | StoreShutdown
  | Exit int

text \<open>The events accepted by the log, and all events whose commit was attempted.\<close>

fun committed :: "effect list \<Rightarrow> event list" where
  "committed [] = []"
| "committed (Commit e # tr) = e # committed tr"
| "committed (_ # tr) = committed tr"

fun attempted :: "effect list \<Rightarrow> event list" where
  "attempted [] = []"
| "attempted (Commit e # tr) = e # attempted tr"
| "attempted (CommitThrew e _ # tr) = e # attempted tr"
| "attempted (_ # tr) = attempted tr"

text \<open>
  The store's answer to a call of \<^verbatim>\<open>store.commit\<close>, as a function of everything the
  agent has done so far and of the event: \<open>None\<close> when the call returns, \<open>Some x\<close>
  when it throws \<open>x\<close>. Taking the whole history lets the answer differ from one call
  to the next, also for the same event.
\<close>

type_synonym commit_oracle = "effect list \<Rightarrow> event \<Rightarrow> thrown option"

definition commit :: "commit_oracle \<Rightarrow> event \<Rightarrow> effect list \<Rightarrow> thrown option \<times> effect list" where
  "commit orc e tr =
     (case orc tr e of
        None \<Rightarrow> (None, tr @ [Commit e])
      | Some x \<Rightarrow> (Some x, tr @ [CommitThrew e x]))"

text \<open>Sequencing inside a \<^verbatim>\<open>try\<close> block: a throw skips the rest of the block.\<close>

definition and_then ::
  "thrown option \<times> effect list \<Rightarrow> (effect list \<Rightarrow> thrown option \<times> effect list)
     \<Rightarrow> thrown option \<times> effect list" where
  "and_then r k = (case r of (None, tr) \<Rightarrow> k tr | (Some x, tr) \<Rightarrow> (Some x, tr))"

section \<open>The execution handler\<close>

text \<open>\<^verbatim>\<open>cell.source || ""\<close>: null and the empty string are both falsy.\<close>

fun source_or_empty :: "string option \<Rightarrow> string" where
  "source_or_empty None = []"
| "source_or_empty (Some s) = (if s = [] then [] else s)"

text \<open>Lines 210 to 228: the output type and the \<^verbatim>\<open>text/plain\<close> payload.\<close>

definition outputData :: "cell \<Rightarrow> string \<times> string" where
  \<open>outputData c =
     (if cellType c = ''ai''
      then (''execute_result'', ''Beep boop. You said "'' @ source_or_empty (source c) @ ''"'')
      else (''execute_result'', source_or_empty (source c)))\<close>

text \<open>
  The \<^verbatim>\<open>try\<close> block of \<^verbatim>\<open>processExecution\<close> (lines 179 to 253). \<open>cs\<close> is the cells
  table when the query of line 181 runs, \<open>uuid\<close> the value of \<^verbatim>\<open>generateUUID()\<close>,
  \<open>executionStartTime\<close> the clock reading of line 177 and \<open>t_end\<close> that of line 241.
  The result is the thrown value, if any, with the trace at that moment.
\<close>

definition try_block ::
  "commit_oracle \<Rightarrow> ident \<Rightarrow> cell list \<Rightarrow> string \<Rightarrow> timestamp \<Rightarrow> timestamp \<Rightarrow> queue_entry
     \<Rightarrow> effect list \<Rightarrow> thrown option \<times> effect list" where
  "try_block orc idn cs uuid executionStartTime t_end queueEntry tr =
     (case filter (\<lambda>c. cell_id c = cellId queueEntry) cs of
        [] \<Rightarrow> (Some (ErrorObj (''Cell '' @ cellId queueEntry @ '' not found'')), tr)
      | c # _ \<Rightarrow>
          and_then (commit orc (ExecutionStarted (entry_id queueEntry) (cellId queueEntry)
                      (SESSION_ID idn) executionStartTime) tr) (\<lambda>tr.
          and_then (commit orc (CellOutputsCleared (cell_id c)
                      (''kernel-'' @ KERNEL_ID idn)) tr) (\<lambda>tr.
          and_then (commit orc (CellOutputAdded uuid (cell_id c) (fst (outputData c))
                      (snd (outputData c)) 0) tr) (\<lambda>tr.
          and_then (commit orc (ExecutionCompleted (entry_id queueEntry) (cellId queueEntry)
                      ''success'' None t_end (t_end - executionStartTime)) tr) (\<lambda>tr.
          (None, tr @ [ConsoleLog (MsgCompleted (t_end - executionStartTime))]))))))"

text \<open>
  The \<^verbatim>\<open>catch\<close> block (lines 254 to 274); \<open>t_catch\<close> is the clock reading of line 259.
\<close>

definition catch_block ::
  "commit_oracle \<Rightarrow> timestamp \<Rightarrow> timestamp \<Rightarrow> queue_entry \<Rightarrow> thrown \<Rightarrow> effect list \<Rightarrow> effect list" where
  "catch_block orc executionStartTime t_catch queueEntry err tr =
     (case commit orc (ExecutionCompleted (entry_id queueEntry) (cellId queueEntry)
             ''error'' (Some (error_message err)) t_catch (t_catch - executionStartTime))
             (tr @ [ConsoleError (MsgExecutionError err)]) of
        (None, tr') \<Rightarrow> tr'
      | (Some commitError, tr') \<Rightarrow> tr' @ [ConsoleError (MsgMarkFailedError commitError)])"

text \<open>
  \<^verbatim>\<open>processExecution\<close> suspends once, at line 175. \<open>processExecution_begin\<close> is the part
  before the suspension, \<open>processExecution_resume\<close> the part after it, which runs to
  completion without another suspension (\<^verbatim>\<open>store.query\<close> and \<^verbatim>\<open>store.commit\<close> are
  synchronous calls). No exception leaves the function.
\<close>

definition processExecution_begin :: "queue_entry \<Rightarrow> effect list \<Rightarrow> effect list" where
  "processExecution_begin queueEntry tr = tr @ [ConsoleLog (MsgProcessing (cellId queueEntry))]"

definition processExecution_resume ::
  "commit_oracle \<Rightarrow> ident \<Rightarrow> cell list \<Rightarrow> string \<Rightarrow> timestamp \<Rightarrow> timestamp \<Rightarrow> timestamp
     \<Rightarrow> queue_entry \<Rightarrow> effect list \<Rightarrow> effect list" where
  "processExecution_resume orc idn cs uuid executionStartTime t_end t_catch queueEntry tr =
     (case try_block orc idn cs uuid executionStartTime t_end queueEntry tr of
        (None, tr') \<Rightarrow> tr'
      | (Some err, tr') \<Rightarrow> catch_block orc executionStartTime t_catch queueEntry err tr')"

definition processExecution ::
  "commit_oracle \<Rightarrow> ident \<Rightarrow> cell list \<Rightarrow> string \<Rightarrow> timestamp \<Rightarrow> timestamp \<Rightarrow> timestamp
     \<Rightarrow> queue_entry \<Rightarrow> effect list \<Rightarrow> effect list" where
  "processExecution orc idn cs uuid executionStartTime t_end t_catch queueEntry tr =
     processExecution_resume orc idn cs uuid executionStartTime t_end t_catch queueEntry
       (processExecution_begin queueEntry tr)"

section \<open>The reactive queries\<close>

text \<open>
  Lines 281 to 297. The store evaluates the queries; their \<^verbatim>\<open>where\<close> and
  \<^verbatim>\<open>orderBy\<close> clauses are written in the agent. Ordering by priority, highest first,
  is a stable sort on the negated priority. The callbacks below take the result sets as
  the store delivers them, whatever they hold.
\<close>

definition pendingWorkQuery :: "queue_entry list \<Rightarrow> queue_entry list" where
  "pendingWorkQuery queue =
     sort_key (\<lambda>e. - priority e) (filter (\<lambda>e. status e = ''pending'') queue)"

definition activeKernelsQuery :: "kernel_session list \<Rightarrow> kernel_session list" where
  "activeKernelsQuery kernelSessions = filter isActive kernelSessions"

section \<open>The agent's state and its callbacks\<close>

text \<open>
  What the event loop holds for the agent: a timer callback that has not run yet, or an
  asynchronous function suspended at an \<^verbatim>\<open>await\<close>.
  \<^item> \<open>AssignedTimer entries\<close>: the callback of line 324, scheduled by the assigned-work
    subscription.
  \<^item> \<open>AssignedAwait queueEntry rest\<close>: that callback suspended in
    \<^verbatim>\<open>await processExecution(queueEntry)\<close>, with \<open>rest\<close> the entries the loop has still
    to visit.
  \<^item> \<open>PendingTimer entries\<close>: the callback of line 357.
  \<^item> \<open>ShutdownAwait\<close>: \<^verbatim>\<open>shutdown\<close> suspended at line 444.
\<close>

datatype task =
    AssignedTimer "queue_entry list"
  | AssignedAwait queue_entry "queue_entry list"
  | PendingTimer "queue_entry list"
  | ShutdownAwait

text \<open>
  The module's mutable variables. A subscription field is \<open>True\<close> while the variable
  holds an unsubscribe handle and \<open>False\<close> once it is null; \<open>heartbeatInterval\<close> is
  \<open>True\<close> while the interval timer is armed; \<open>exited\<close> is the status passed to
  \<^verbatim>\<open>Deno.exit\<close>, once it was called; \<open>terminated\<close> is the status with which the
  runtime ended the process on its own, without a call of \<^verbatim>\<open>Deno.exit\<close>.
\<close>

record agent =
  isShuttingDown :: bool
  processedExecutions :: "string set"
  assignedWorkSubscription :: bool
  pendingWorkSubscription :: bool
  activeKernelsSubscription :: bool
  heartbeatInterval :: bool
  tasks :: "task list"
  trace :: "effect list"
  exited :: "int option"
  terminated :: "int option"

text \<open>
  The loop of lines 325 to 342, from the loop head to the next suspension or to the end
  of the list. The membership test, the insertion and the call of
  \<^verbatim>\<open>processExecution\<close> up to its first \<^verbatim>\<open>await\<close> run without interruption. The
  \<^verbatim>\<open>catch\<close> of line 336 has nothing to catch, since no exception leaves
  \<^verbatim>\<open>processExecution\<close>.
\<close>

fun assigned_loop :: "queue_entry list \<Rightarrow> agent \<Rightarrow> task option \<times> agent" where
  "assigned_loop [] a = (None, a)"
| "assigned_loop (queueEntry # rest) a =
     (if entry_id queueEntry \<in> processedExecutions a then assigned_loop rest a
      else (Some (AssignedAwait queueEntry rest),
            a\<lparr>processedExecutions := insert (entry_id queueEntry) (processedExecutions a),
              trace := processExecution_begin queueEntry
                         (trace a @ [Invoked (entry_id queueEntry)])\<rparr>))"

text \<open>\<^verbatim>\<open>onUpdate\<close> of the assigned-work subscription (lines 320 to 344).\<close>

definition assignedWork_onUpdate :: "queue_entry list \<Rightarrow> agent \<Rightarrow> agent" where
  "assignedWork_onUpdate entries a =
     (if isShuttingDown a then a else a\<lparr>tasks := tasks a @ [AssignedTimer entries]\<rparr>)"

text \<open>\<^verbatim>\<open>onUpdate\<close> of the pending-work subscription (lines 349 to 381).\<close>

definition pendingWork_onUpdate :: "queue_entry list \<Rightarrow> agent \<Rightarrow> agent" where
  "pendingWork_onUpdate entries a =
     (if isShuttingDown a then a
      else a\<lparr>trace := (if length entries > 0
                        then trace a @ [ConsoleLog (MsgPending (length entries))]
                        else trace a),
             tasks := tasks a @ [PendingTimer entries]\<rparr>)"

text \<open>
  The timer callback of lines 357 to 380; \<open>kernelSessions\<close> is the sessions table when
  the query of line 359 runs. The \<^verbatim>\<open>catch\<close> of line 376 is empty.
\<close>

definition claim_pending ::
  "commit_oracle \<Rightarrow> ident \<Rightarrow> kernel_session list \<Rightarrow> queue_entry list \<Rightarrow> effect list
     \<Rightarrow> effect list" where
  "claim_pending orc idn kernelSessions entries tr =
     (case find (\<lambda>k. sessionId k = SESSION_ID idn) (activeKernelsQuery kernelSessions) of
        None \<Rightarrow> tr
      | Some ourKernel \<Rightarrow>
          (case entries of
             [] \<Rightarrow> tr
           | firstPending # _ \<Rightarrow>
               if status firstPending = ''pending''
               then snd (commit orc (ExecutionAssigned (entry_id firstPending)
                                       (SESSION_ID idn)) tr)
               else tr))"

text \<open>\<^verbatim>\<open>onUpdate\<close> of the active-kernels subscription (lines 386 to 389).\<close>

definition activeKernels_onUpdate :: "kernel_session list \<Rightarrow> agent \<Rightarrow> agent" where
  "activeKernels_onUpdate entries a = (if isShuttingDown a then a else a)"

text \<open>The heartbeat callback (lines 393 to 405); \<open>now\<close> is the clock reading of line 400.\<close>

definition heartbeat :: "commit_oracle \<Rightarrow> ident \<Rightarrow> timestamp \<Rightarrow> agent \<Rightarrow> agent" where
  "heartbeat orc idn now a =
     (if isShuttingDown a then a
      else case commit orc (KernelSessionHeartbeat (SESSION_ID idn) ''ready'' now) (trace a) of
             (None, tr) \<Rightarrow> a\<lparr>trace := tr\<rparr>
           | (Some err, tr) \<Rightarrow> a\<lparr>trace := tr @ [ConsoleWarn (MsgHeartbeatFailed err)]\<rparr>)"

text \<open>
  \<^verbatim>\<open>shutdown\<close> (lines 408 to 447) up to its suspension at line 444. The store's
  \<^verbatim>\<open>shutdown\<close> method is called through \<^verbatim>\<open>?.\<close>: \<open>store_shutdown\<close> is \<open>None\<close> when the
  store has no such method, and \<open>Some r\<close> when it has one, \<open>r\<close> being how the returned
  promise settles (\<open>None\<close>: it resolves; \<open>Some x\<close>: it rejects with \<open>x\<close>).
\<close>

definition release :: "subscription \<Rightarrow> bool \<Rightarrow> effect list \<Rightarrow> effect list" where
  "release s held tr = (if held then tr @ [Unsubscribe s] else tr)"

definition shutdown ::
  "commit_oracle \<Rightarrow> ident \<Rightarrow> thrown option option \<Rightarrow> agent \<Rightarrow> agent" where
  "shutdown orc idn store_shutdown a =
     (if isShuttingDown a then a
      else
        let tr1 = trace a @ [ConsoleLog MsgShuttingDown, ClearInterval];
            tr2 = release AssignedWork (assignedWorkSubscription a) tr1;
            tr3 = release PendingWork (pendingWorkSubscription a) tr2;
            tr4 = release ActiveKernels (activeKernelsSubscription a) tr3;
            tr5 = (case commit orc (KernelSessionTerminated (SESSION_ID idn) ''shutdown'') tr4 of
                     (None, tr) \<Rightarrow> tr
                   | (Some err, tr) \<Rightarrow> tr @ [ConsoleWarn (MsgTerminatedFailed err)]);
            tr6 = (case store_shutdown of None \<Rightarrow> tr5 | Some _ \<Rightarrow> tr5 @ [StoreShutdown])
        in a\<lparr>isShuttingDown := True,
             heartbeatInterval := False,
             assignedWorkSubscription := False,
             pendingWorkSubscription := False,
             activeKernelsSubscription := False,
             tasks := tasks a @ [ShutdownAwait],
             trace := tr6\<rparr>)"

text \<open>
  The listeners of lines 453 to 461: each prints the error and calls \<^verbatim>\<open>shutdown\<close>,
  which runs up to its suspension at line 444. Neither listener calls
  \<^verbatim>\<open>preventDefault\<close> on the event, so when the listener returns the Deno runtime takes
  its default action for an unhandled error: it ends the process with status 1. The
  suspended \<^verbatim>\<open>shutdown\<close> never resumes, and \<^verbatim>\<open>Deno.exit(0)\<close> is not reached.
\<close>

definition error_listener ::
  "commit_oracle \<Rightarrow> ident \<Rightarrow> thrown option option \<Rightarrow> message \<Rightarrow> agent \<Rightarrow> agent" where
  "error_listener orc idn store_shutdown m a =
     (shutdown orc idn store_shutdown (a\<lparr>trace := trace a @ [ConsoleError m]\<rparr>))
       \<lparr>terminated := Some 1\<rparr>"

text \<open>
  The rest of \<^verbatim>\<open>shutdown\<close>, after the \<^verbatim>\<open>await\<close> of line 444. When the store's promise
  rejects, \<^verbatim>\<open>shutdown\<close> rejects without reaching \<^verbatim>\<open>Deno.exit\<close>; the rejection is
  unhandled and reaches the listener of line 453.
\<close>

definition shutdown_resume ::
  "commit_oracle \<Rightarrow> ident \<Rightarrow> thrown option option \<Rightarrow> agent \<Rightarrow> agent" where
  "shutdown_resume orc idn store_shutdown a =
     (case store_shutdown of
        Some (Some x) \<Rightarrow> error_listener orc idn store_shutdown (MsgUnhandledRejection x) a
      | _ \<Rightarrow> a\<lparr>trace := trace a @ [Exit 0], exited := Some 0\<rparr>)"

section \<open>The event loop\<close>

text \<open>
  What a timer callback reads from its environment when it runs: the store's tables, a
  fresh identifier and the clock readings of lines 177, 241 and 259.
\<close>

record inputs =
  in_cells :: "cell list"
  in_kernelSessions :: "kernel_session list"
  in_uuid :: string
  in_start :: timestamp
  in_end :: timestamp
  in_catch :: timestamp

text \<open>
  One turn of the event loop:
  \<^item> the store delivers a result set to one of the three subscriptions;
  \<^item> \<open>RunTask i inp\<close>: the \<open>i\<close>-th waiting task runs (a timer fires, or an awaited
    promise settles);
  \<^item> the heartbeat interval fires;
  \<^item> a signal (line 449), an unhandled rejection (line 453) or an uncaught error
    (line 458) arrives.
\<close>

datatype turn =
    AssignedUpdate "queue_entry list"
  | PendingUpdate "queue_entry list"
  | ActiveKernelsUpdate "kernel_session list"
  | RunTask nat inputs
  | HeartbeatFires timestamp
  | Signal
  | UnhandledRejection thrown
  | UncaughtError thrown

definition set_task :: "nat \<Rightarrow> task option \<Rightarrow> agent \<Rightarrow> agent" where
  "set_task i t a =
     (case t of
        None \<Rightarrow> a\<lparr>tasks := take i (tasks a) @ drop (Suc i) (tasks a)\<rparr>
      | Some t' \<Rightarrow> a\<lparr>tasks := (tasks a)[i := t']\<rparr>)"

definition continue_loop :: "nat \<Rightarrow> queue_entry list \<Rightarrow> agent \<Rightarrow> agent" where
  "continue_loop i entries a = (case assigned_loop entries a of (t, a') \<Rightarrow> set_task i t a')"

definition run_task ::
  "commit_oracle \<Rightarrow> ident \<Rightarrow> thrown option option \<Rightarrow> nat \<Rightarrow> inputs \<Rightarrow> agent \<Rightarrow> agent" where
  "run_task orc idn store_shutdown i inp a =
     (if i < length (tasks a) then
        (case tasks a ! i of
           AssignedTimer entries \<Rightarrow> continue_loop i entries a
         | AssignedAwait queueEntry rest \<Rightarrow>
             continue_loop i rest
               (a\<lparr>trace := processExecution_resume orc idn (in_cells inp) (in_uuid inp)
                              (in_start inp) (in_end inp) (in_catch inp) queueEntry (trace a)\<rparr>)
         | PendingTimer entries \<Rightarrow>
             set_task i None
               (a\<lparr>trace := claim_pending orc idn (in_kernelSessions inp) entries (trace a)\<rparr>)
         | ShutdownAwait \<Rightarrow> shutdown_resume orc idn store_shutdown (set_task i None a))
      else a)"

text \<open>
  Nothing runs after \<^verbatim>\<open>Deno.exit\<close>, nor after the runtime has ended the process (which
  it does only when a listener of lines 453 to 461 has returned, so with the flag set).
  The store calls \<^verbatim>\<open>onUpdate\<close> only while the subscription is held, and the interval
  fires only while it is armed.
\<close>

definition step ::
  "commit_oracle \<Rightarrow> ident \<Rightarrow> thrown option option \<Rightarrow> turn \<Rightarrow> agent \<Rightarrow> agent" where
  "step orc idn store_shutdown t a =
     (if exited a \<noteq> None \<or> (isShuttingDown a \<and> terminated a \<noteq> None) then a
      else case t of
          AssignedUpdate entries \<Rightarrow>
            if assignedWorkSubscription a then assignedWork_onUpdate entries a else a
        | PendingUpdate entries \<Rightarrow>
            if pendingWorkSubscription a then pendingWork_onUpdate entries a else a
        | ActiveKernelsUpdate entries \<Rightarrow>
            if activeKernelsSubscription a then activeKernels_onUpdate entries a else a
        | RunTask i inp \<Rightarrow> run_task orc idn store_shutdown i inp a
        | HeartbeatFires now \<Rightarrow> if heartbeatInterval a then heartbeat orc idn now a else a
        | Signal \<Rightarrow> shutdown orc idn store_shutdown a
        | UnhandledRejection x \<Rightarrow>
            error_listener orc idn store_shutdown (MsgUnhandledRejection x) a
        | UncaughtError x \<Rightarrow>
            error_listener orc idn store_shutdown (MsgUncaughtError x) a)"

fun run ::
  "commit_oracle \<Rightarrow> ident \<Rightarrow> thrown option option \<Rightarrow> turn list \<Rightarrow> agent \<Rightarrow> agent" where
  "run orc idn store_shutdown [] a = a"
| "run orc idn store_shutdown (t # ts) a =
     run orc idn store_shutdown ts (step orc idn store_shutdown t a)"

text \<open>
  One refresh of the pending-work view, from the call of \<^verbatim>\<open>onUpdate\<close> to the end of the
  timer callback it schedules (which \<^verbatim>\<open>onUpdate\<close> appends to the waiting tasks).
\<close>

definition pending_refresh ::
  "commit_oracle \<Rightarrow> ident \<Rightarrow> thrown option option \<Rightarrow> queue_entry list \<Rightarrow> inputs
     \<Rightarrow> agent \<Rightarrow> agent" where
  "pending_refresh orc idn store_shutdown entries inp a =
     step orc idn store_shutdown (RunTask (length (tasks a)) inp)
       (step orc idn store_shutdown (PendingUpdate entries) a)"

section \<open>Startup\<close>

text \<open>
  The parsed command line and the environment (lines 30 to 40 and 72 to 77); \<open>pid\<close> is
  the decimal rendering of \<^verbatim>\<open>Deno.pid\<close>.
\<close>

record config =
  arg_help :: bool
  arg_notebook :: "string option"
  arg_auth_token :: "string option"
  arg_sync_url :: "string option"
  arg_kernel_id :: "string option"
  env_NOTEBOOK_ID :: "string option"
  env_AUTH_TOKEN :: "string option"
  env_LIVESTORE_SYNC_URL :: "string option"
  env_KERNEL_ID :: "string option"
  pid :: string

text \<open>
  \<^verbatim>\<open>a || b\<close> and \<^verbatim>\<open>!a\<close> on values that are a string or undefined: the empty string is
  falsy. \<^verbatim>\<open>a ?? d\<close> replaces undefined only.
\<close>

fun js_or :: "string option \<Rightarrow> string option \<Rightarrow> string option" where
  "js_or None b = b"
| "js_or (Some s) b = (if s = [] then b else Some s)"

fun falsy :: "string option \<Rightarrow> bool" where
  "falsy None = True"
| "falsy (Some s) = (s = [])"

fun nullish_or :: "string option \<Rightarrow> string \<Rightarrow> string" where
  "nullish_or None d = d"
| "nullish_or (Some s) d = s"

definition NOTEBOOK_ID :: "config \<Rightarrow> string option" where
  "NOTEBOOK_ID cfg = js_or (arg_notebook cfg) (env_NOTEBOOK_ID cfg)"

definition AUTH_TOKEN :: "config \<Rightarrow> string option" where
  "AUTH_TOKEN cfg = js_or (arg_auth_token cfg) (env_AUTH_TOKEN cfg)"

definition SYNC_URL :: "config \<Rightarrow> string" where
  "SYNC_URL cfg =
     nullish_or (js_or (arg_sync_url cfg) (env_LIVESTORE_SYNC_URL cfg))
       ''wss://anode-docworker.rgbkrk.workers.dev''"

text \<open>
  Lines 76 and 102: \<open>now\<close> and \<open>rnd\<close> are the renderings of \<^verbatim>\<open>Date.now()\<close> and of
  \<^verbatim>\<open>Math.random().toString(36).slice(2)\<close>.
\<close>

definition identify :: "config \<Rightarrow> string \<Rightarrow> string \<Rightarrow> ident" where
  "identify cfg now rnd =
     (let kernel = nullish_or (js_or (arg_kernel_id cfg) (env_KERNEL_ID cfg))
                     (''deno-kernel-'' @ pid cfg)
      in \<lparr>KERNEL_ID = kernel, SESSION_ID = kernel @ ''-'' @ now @ ''-'' @ rnd\<rparr>)"

text \<open>
  How the top-level code ends: \<^verbatim>\<open>Deno.exit\<close> was called, an exception left the module,
  or the agent is set up and waits for events.
\<close>

datatype outcome =
    Exited int "effect list"
  | Uncaught thrown "effect list"
  | Running agent

text \<open>
  Lines 42 to 463. \<open>store_created\<close> is how \<^verbatim>\<open>createStorePromise\<close> settles (\<open>Some x\<close>:
  it rejects with \<open>x\<close>), \<open>heartbeat_at\<close> the clock reading of line 149. All the code
  from line 133 to line 463 runs without a suspension, so no callback runs before the
  subscriptions, the interval and the listeners are in place.
\<close>

definition startup ::
  "commit_oracle \<Rightarrow> config \<Rightarrow> ident \<Rightarrow> thrown option \<Rightarrow> timestamp \<Rightarrow> outcome" where
  "startup orc cfg idn store_created heartbeat_at =
     (if arg_help cfg then Exited 0 [ConsoleLog MsgHelp]
      else if falsy (AUTH_TOKEN cfg) then
        Exited 1 [ConsoleError MsgAuthTokenRequired, ConsoleError MsgAuthTokenProvideVia,
                  ConsoleError MsgUseHelp]
      else if falsy (NOTEBOOK_ID cfg) then
        Exited 1 [ConsoleError MsgNotebookIdRequired, ConsoleError MsgNotebookIdProvideVia,
                  ConsoleError MsgNotebookIdExample, ConsoleError MsgUseHelp]
      else
        let tr0 = [ConsoleLog (MsgStarting (nullish_or (NOTEBOOK_ID cfg) []))] in
        case store_created of
          Some x \<Rightarrow> Uncaught x tr0
        | None \<Rightarrow>
            (case and_then (commit orc (KernelSessionStarted (SESSION_ID idn) (KERNEL_ID idn)
                                          ''echo'' True False True) tr0) (\<lambda>tr.
                  and_then (commit orc (KernelSessionHeartbeat (SESSION_ID idn) ''ready''
                                          heartbeat_at) tr) (\<lambda>tr.
                  (None, tr @ [ConsoleLog MsgConnected]))) of
               (Some error, tr) \<Rightarrow> Uncaught error (tr @ [ConsoleError (MsgRegisterFailed error)])
             | (None, tr) \<Rightarrow>
                 Running \<lparr>isShuttingDown = False,
                          processedExecutions = {},
                          assignedWorkSubscription = True,
                          pendingWorkSubscription = True,
                          activeKernelsSubscription = True,
                          heartbeatInterval = True,
                          tasks = [],
                          trace = tr @ [Subscribe AssignedWork, Subscribe PendingWork,
                                        Subscribe ActiveKernels, SetInterval,
                                        ConsoleLog MsgPressCtrlC],
                          exited = None,
                          terminated = None\<rparr>))"

text \<open>
  The status the process exits with. An exception that leaves the module makes the Deno
  runtime print it and exit with status 1; the listeners of lines 453 and 458 are not
  registered yet when line 155 throws.
\<close>

fun exit_status :: "outcome \<Rightarrow> int option" where
  "exit_status (Exited n _) = Some n"
| "exit_status (Uncaught _ _) = Some 1"
| "exit_status (Running _) = None"

fun outcome_trace :: "outcome \<Rightarrow> effect list" where
  "outcome_trace (Exited _ tr) = tr"
| "outcome_trace (Uncaught _ tr) = tr"
| "outcome_trace (Running a) = trace a"

section \<open>Observations on traces\<close>

fun is_output :: "event \<Rightarrow> bool" where
  "is_output (CellOutputAdded _ _ _ _ _) = True"
| "is_output _ = False"

fun is_completed :: "event \<Rightarrow> bool" where
  "is_completed (ExecutionCompleted _ _ _ _ _ _) = True"
| "is_completed _ = False"

fun is_assignment :: "event \<Rightarrow> bool" where
  "is_assignment (ExecutionAssigned _ _) = True"
| "is_assignment _ = False"

text \<open>The queue identifiers of the calls of \<^verbatim>\<open>processExecution\<close>, in order.\<close>

fun invoked :: "effect list \<Rightarrow> string list" where
  "invoked [] = []"
| "invoked (Invoked q # tr) = q # invoked tr"
| "invoked (_ # tr) = invoked tr"

text \<open>The queue identifiers of the execution-completed events in the log, in order.\<close>

fun completed_ids :: "effect list \<Rightarrow> string list" where
  "completed_ids [] = []"
| "completed_ids (Commit (ExecutionCompleted q _ _ _ _ _) # tr) = q # completed_ids tr"
| "completed_ids (_ # tr) = completed_ids tr"

text \<open>The queue entries whose execution is suspended at line 175.\<close>

fun awaiting :: "task list \<Rightarrow> string list" where
  "awaiting [] = []"
| "awaiting (AssignedAwait queueEntry _ # ts) = entry_id queueEntry # awaiting ts"
| "awaiting (_ # ts) = awaiting ts"

text \<open>The teardown steps among the effects, in order.\<close>

datatype teardown_step =
    StopHeartbeat
  | ReleaseSubscription subscription
  | CommitTerminated
  | CloseStore
  | ExitProcess int

fun teardown :: "effect list \<Rightarrow> teardown_step list" where
  "teardown [] = []"
| "teardown (ClearInterval # tr) = StopHeartbeat # teardown tr"
| "teardown (Unsubscribe s # tr) = ReleaseSubscription s # teardown tr"
| "teardown (Commit (KernelSessionTerminated _ _) # tr) = CommitTerminated # teardown tr"
| "teardown (CommitThrew (KernelSessionTerminated _ _) _ # tr) = CommitTerminated # teardown tr"
| "teardown (StoreShutdown # tr) = CloseStore # teardown tr"
| "teardown (Exit n # tr) = ExitProcess n # teardown tr"
| "teardown (_ # tr) = teardown tr"

fun is_registration :: "event \<Rightarrow> bool" where
  "is_registration (KernelSessionStarted _ _ _ _ _ _) = True"
| "is_registration _ = False"


text \<open>
  Stores: one that accepts every commit, and one that rejects the events of a given kind
  and accepts the others.
\<close>

definition accept_all :: commit_oracle where
  "accept_all tr e = None"

definition rejecting :: "(event \<Rightarrow> bool) \<Rightarrow> commit_oracle" where
  "rejecting kind tr e = (if kind e then Some (ErrorObj ''rejected'') else None)"

text \<open>
  The payload as the specification words it: the reply
  \<^verbatim>\<open>Beep boop. You said "<source>"\<close> for a cell of type \<^verbatim>\<open>ai\<close>, the source itself for
  any other type, a null source counting as the empty string.
\<close>

definition spec_payload :: "string \<Rightarrow> string option \<Rightarrow> string" where
  \<open>spec_payload ty src =
     (let s = (case src of None \<Rightarrow> [] | Some s \<Rightarrow> s)
      in if ty = ''ai'' then ''Beep boop. You said "'' @ s @ ''"'' else s)\<close>

text \<open>A store that rejects the success completion and accepts everything else.\<close>

definition reject_success :: commit_oracle where
  "reject_success tr e =
     (case e of
        ExecutionCompleted _ _ st _ _ _ \<Rightarrow>
          if st = ''success'' then Some (ErrorObj ''rejected'') else None
      | _ \<Rightarrow> None)"

text \<open>The \<^verbatim>\<open>text/plain\<close> payloads of the output-added events, in order.\<close>

definition payloads :: "event list \<Rightarrow> string list" where
  "payloads es =
     concat (map (\<lambda>e. case e of CellOutputAdded _ _ _ txt _ \<Rightarrow> [txt] | _ \<Rightarrow> []) es)"

section \<open>Invariants of the event loop\<close>

text \<open>
  The dedup ledger: no identifier was handed to \<^verbatim>\<open>processExecution\<close> twice, every
  identifier handed over is in the ledger, the suspended executions are distinct and were
  handed over, and a completion is in the log at most once per identifier, only for an
  identifier handed over, and never while its execution is still suspended.
\<close>

definition ledger_inv :: "agent \<Rightarrow> bool" where
  "ledger_inv a \<longleftrightarrow>
     distinct (invoked (trace a)) \<and> set (invoked (trace a)) \<subseteq> processedExecutions a \<and>
     distinct (awaiting (tasks a)) \<and> set (awaiting (tasks a)) \<subseteq> set (invoked (trace a)) \<and>
     distinct (completed_ids (trace a)) \<and>
     set (completed_ids (trace a)) \<subseteq> set (invoked (trace a)) \<and>
     set (completed_ids (trace a)) \<inter> set (awaiting (tasks a)) = {}"

text \<open>Two states that agree on everything the ledger invariant reads.\<close>

definition same_ledger_view :: "agent \<Rightarrow> agent \<Rightarrow> bool" where
  "same_ledger_view a b \<longleftrightarrow>
     invoked (trace b) = invoked (trace a) \<and>
     completed_ids (trace b) = completed_ids (trace a) \<and>
     awaiting (tasks b) = awaiting (tasks a) \<and>
     processedExecutions b = processedExecutions a"

text \<open>The turns that call \<^verbatim>\<open>shutdown\<close> (lines 449 to 461).\<close>

fun is_trigger :: "turn \<Rightarrow> bool" where
  "is_trigger Signal = True"
| "is_trigger (UnhandledRejection _) = True"
| "is_trigger (UncaughtError _) = True"
| "is_trigger _ = False"

text \<open>
  The teardown as the specification orders it, up to the closing of the store: stop the
  heartbeat, release the three subscriptions, commit the termination, close the store
  (when the store has a \<^verbatim>\<open>shutdown\<close> method).
\<close>

definition teardown_sequence :: "thrown option option \<Rightarrow> teardown_step list" where
  "teardown_sequence store_shutdown =
     [StopHeartbeat, ReleaseSubscription AssignedWork, ReleaseSubscription PendingWork,
      ReleaseSubscription ActiveKernels, CommitTerminated]
     @ (case store_shutdown of None \<Rightarrow> [] | Some _ \<Rightarrow> [CloseStore])"

text \<open>The agent before the first call of \<^verbatim>\<open>shutdown\<close>, and from that call on.\<close>

definition before_shutdown :: "agent \<Rightarrow> bool" where
  "before_shutdown a \<longleftrightarrow>
     \<not> isShuttingDown a \<and> exited a = None \<and> terminated a = None \<and>
     assignedWorkSubscription a \<and>
     pendingWorkSubscription a \<and> activeKernelsSubscription a \<and> heartbeatInterval a \<and>
     ShutdownAwait \<notin> set (tasks a) \<and> teardown (trace a) = []"

definition after_shutdown :: "thrown option option \<Rightarrow> agent \<Rightarrow> bool" where
  "after_shutdown store_shutdown a \<longleftrightarrow>
     isShuttingDown a \<and>
     (exited a = None \<and> teardown (trace a) = teardown_sequence store_shutdown
      \<or> exited a = Some 0 \<and>
        teardown (trace a) = teardown_sequence store_shutdown @ [ExitProcess 0])"

section \<open>The scenarios of the specification\<close>

text \<open>
  The names of section 8 of the specification: the session \<^verbatim>\<open>s1\<close>, the queue entry
  \<^verbatim>\<open>w1\<close> with priority 5 for the cell \<^verbatim>\<open>c1\<close> whose source is \<^verbatim>\<open>print(1)\<close>.
\<close>

definition scenario_ident :: ident where
  "scenario_ident = \<lparr>KERNEL_ID = ''k1'', SESSION_ID = ''s1''\<rparr>"

definition scenario_config :: config where
  "scenario_config =
     \<lparr>arg_help = False, arg_notebook = Some ''nb1'', arg_auth_token = Some ''secret'',
      arg_sync_url = None, arg_kernel_id = Some ''k1'', env_NOTEBOOK_ID = None,
      env_AUTH_TOKEN = None, env_LIVESTORE_SYNC_URL = None, env_KERNEL_ID = None,
      pid = ''42''\<rparr>"

definition scenario_w1 :: "string \<Rightarrow> queue_entry" where
  "scenario_w1 st = \<lparr>entry_id = ''w1'', cellId = ''c1'', status = st, priority = 5\<rparr>"

definition scenario_inputs :: inputs where
  "scenario_inputs =
     \<lparr>in_cells = [\<lparr>cell_id = ''c1'', cellType = ''code'', source = Some ''print(1)''\<rparr>],
      in_kernelSessions = [\<lparr>sessionId = ''s1'', isActive = True\<rparr>],
      in_uuid = ''u1'', in_start = 10, in_end = 12, in_catch = 13\<rparr>"

text \<open>The agent as \<open>startup\<close> leaves it in the scenario, with the heartbeat stamped 0.\<close>

definition scenario_agent :: agent where
  "scenario_agent =
     \<lparr>isShuttingDown = False, processedExecutions = {}, assignedWorkSubscription = True,
      pendingWorkSubscription = True, activeKernelsSubscription = True,
      heartbeatInterval = True, tasks = [],
      trace = [ConsoleLog (MsgStarting ''nb1''),
               Commit (KernelSessionStarted ''s1'' ''k1'' ''echo'' True False True),
               Commit (KernelSessionHeartbeat ''s1'' ''ready'' 0),
               ConsoleLog MsgConnected,
               Subscribe AssignedWork, Subscribe PendingWork, Subscribe ActiveKernels,
               SetInterval, ConsoleLog MsgPressCtrlC],
      exited = None, terminated = None\<rparr>"

text \<open>
  The test of section 8: the store delivers \<^verbatim>\<open>w1\<close> twice before the first execution's
  commits land; then both timer callbacks run, and the execution resumes.
\<close>

definition duplicate_delivery :: "turn list" where
  "duplicate_delivery =
     [AssignedUpdate [scenario_w1 ''assigned''], AssignedUpdate [scenario_w1 ''assigned''],
      RunTask 0 scenario_inputs, RunTask 1 scenario_inputs, RunTask 0 scenario_inputs]"

section \<open>Properties of a single execution\<close>

text \<open>The observations distribute over the concatenation of traces.\<close>


lemma committed_append [simp]: "committed (a @ b) = committed a @ committed b"
  by (induction a rule: committed.induct) simp_all

lemma attempted_append [simp]: "attempted (a @ b) = attempted a @ attempted b"
  by (induction a rule: attempted.induct) simp_all

lemma invoked_append [simp]: "invoked (a @ b) = invoked a @ invoked b"
  by (induction a rule: invoked.induct) simp_all

lemma completed_ids_append [simp]: "completed_ids (a @ b) = completed_ids a @ completed_ids b"
  by (induction a rule: completed_ids.induct) simp_all

lemma teardown_append [simp]: "teardown (a @ b) = teardown a @ teardown b"
  by (induction a rule: teardown.induct) simp_all

lemma awaiting_append [simp]: "awaiting (a @ b) = awaiting a @ awaiting b"
  by (induction a rule: awaiting.induct) simp_all

lemma outputData_spec: "outputData c = (''execute_result'', spec_payload (cellType c) (source c))"
  by (cases "source c") (simp_all add: outputData_def spec_payload_def)


text \<open>The six ways the \<^verbatim>\<open>try\<close> block can end.\<close>

lemma try_block_outcome:
  fixes orc idn cs uuid t_start t_end q tr
  defines "started \<equiv> ExecutionStarted (entry_id q) (cellId q) (SESSION_ID idn) t_start"
      and "done \<equiv> ExecutionCompleted (entry_id q) (cellId q) ''success'' None t_end (t_end - t_start)"
  obtains
    (not_found) "filter (\<lambda>c. cell_id c = cellId q) cs = []"
      "try_block orc idn cs uuid t_start t_end q tr
         = (Some (ErrorObj (''Cell '' @ cellId q @ '' not found'')), tr)"
  | (started_threw) c rest x where "filter (\<lambda>c. cell_id c = cellId q) cs = c # rest"
      "try_block orc idn cs uuid t_start t_end q tr = (Some x, tr @ [CommitThrew started x])"
  | (cleared_threw) c rest x where "filter (\<lambda>c. cell_id c = cellId q) cs = c # rest"
      "try_block orc idn cs uuid t_start t_end q tr
         = (Some x, tr @ [Commit started,
              CommitThrew (CellOutputsCleared (cell_id c) (''kernel-'' @ KERNEL_ID idn)) x])"
  | (output_threw) c rest x where "filter (\<lambda>c. cell_id c = cellId q) cs = c # rest"
      "try_block orc idn cs uuid t_start t_end q tr
         = (Some x, tr @ [Commit started,
              Commit (CellOutputsCleared (cell_id c) (''kernel-'' @ KERNEL_ID idn)),
              CommitThrew (CellOutputAdded uuid (cell_id c) ''execute_result''
                 (spec_payload (cellType c) (source c)) 0) x])"
  | (completed_threw) c rest x where "filter (\<lambda>c. cell_id c = cellId q) cs = c # rest"
      "try_block orc idn cs uuid t_start t_end q tr
         = (Some x, tr @ [Commit started,
              Commit (CellOutputsCleared (cell_id c) (''kernel-'' @ KERNEL_ID idn)),
              Commit (CellOutputAdded uuid (cell_id c) ''execute_result''
                 (spec_payload (cellType c) (source c)) 0),
              CommitThrew done x])"
  | (success) c rest where "filter (\<lambda>c. cell_id c = cellId q) cs = c # rest"
      "try_block orc idn cs uuid t_start t_end q tr
         = (None, tr @ [Commit started,
              Commit (CellOutputsCleared (cell_id c) (''kernel-'' @ KERNEL_ID idn)),
              Commit (CellOutputAdded uuid (cell_id c) ''execute_result''
                 (spec_payload (cellType c) (source c)) 0),
              Commit done,
              ConsoleLog (MsgCompleted (t_end - t_start))])"
proof (cases "filter (\<lambda>c. cell_id c = cellId q) cs")
  case Nil
  then show ?thesis using not_found by (simp add: try_block_def)
next
  case (Cons c rest)
  let ?cleared = "CellOutputsCleared (cell_id c) (''kernel-'' @ KERNEL_ID idn)"
  let ?out = "CellOutputAdded uuid (cell_id c) ''execute_result''
                 (spec_payload (cellType c) (source c)) 0"
  show ?thesis
  proof (cases "orc tr started")
    case (Some x)
    then show ?thesis using Cons started_threw [of c rest x]
      by (simp add: try_block_def and_then_def commit_def started_def)
  next
    case s1: None
    show ?thesis
    proof (cases "orc (tr @ [Commit started]) ?cleared")
      case (Some x)
      then show ?thesis using Cons s1 cleared_threw [of c rest x]
        by (simp add: try_block_def and_then_def commit_def started_def)
    next
      case s2: None
      show ?thesis
      proof (cases "orc (tr @ [Commit started, Commit ?cleared]) ?out")
        case (Some x)
        then show ?thesis using Cons s1 s2 output_threw [of c rest x]
          by (simp add: try_block_def and_then_def commit_def started_def outputData_spec)
      next
        case s3: None
        show ?thesis
        proof (cases "orc (tr @ [Commit started, Commit ?cleared, Commit ?out]) done")
          case (Some x)
          then show ?thesis using Cons s1 s2 s3 completed_threw [of c rest x]
            by (simp add: try_block_def and_then_def commit_def started_def done_def
                outputData_spec)
        next
          case None
          then show ?thesis using Cons s1 s2 s3 success [of c rest]
            by (simp add: try_block_def and_then_def commit_def started_def done_def
                outputData_spec)
        qed
      qed
    qed
  qed
qed


lemma catch_block_outcome:
  fixes orc t_start t_catch q err tr
  defines "failed \<equiv> ExecutionCompleted (entry_id q) (cellId q) ''error''
                        (Some (error_message err)) t_catch (t_catch - t_start)"
  obtains
    (recorded) "orc (tr @ [ConsoleError (MsgExecutionError err)]) failed = None"
      "catch_block orc t_start t_catch q err tr = tr @ [ConsoleError (MsgExecutionError err), Commit failed]"
  | (lost) y where "orc (tr @ [ConsoleError (MsgExecutionError err)]) failed = Some y"
      "catch_block orc t_start t_catch q err tr
         = tr @ [ConsoleError (MsgExecutionError err), CommitThrew failed y,
                 ConsoleError (MsgMarkFailedError y)]"
proof (cases "orc (tr @ [ConsoleError (MsgExecutionError err)]) failed")
  case None
  then show ?thesis using recorded by (simp add: catch_block_def commit_def failed_def)
next
  case (Some y)
  then show ?thesis using lost [of y] by (simp add: catch_block_def commit_def failed_def)
qed




lemma try_block_completed_ids:
  "completed_ids (snd (try_block orc idn cs uuid t_start t_end q tr))
     = completed_ids tr @ (if fst (try_block orc idn cs uuid t_start t_end q tr) = None
                           then [entry_id q] else [])"
  by (cases rule: try_block_outcome [where q=q and cs=cs and orc=orc and idn=idn and uuid=uuid
        and t_start=t_start and t_end=t_end and tr=tr]) simp_all

lemma catch_block_completed_ids:
  "completed_ids (catch_block orc t_start t_catch q err tr)
     = completed_ids tr @
        (if orc (tr @ [ConsoleError (MsgExecutionError err)])
              (ExecutionCompleted (entry_id q) (cellId q) ''error'' (Some (error_message err))
                 t_catch (t_catch - t_start)) = None
         then [entry_id q] else [])"
  by (cases rule: catch_block_outcome [where orc=orc and tr=tr and err=err and q=q
        and t_catch=t_catch and t_start=t_start]) simp_all

lemma resume_completed_ids:
  "completed_ids (processExecution_resume orc idn cs uuid t_start t_end t_catch q tr)
     = completed_ids tr \<or>
   completed_ids (processExecution_resume orc idn cs uuid t_start t_end t_catch q tr)
     = completed_ids tr @ [entry_id q]"
proof (cases "try_block orc idn cs uuid t_start t_end q tr")
  case (Pair r tr')
  have ids: "completed_ids tr' = completed_ids tr @ (if r = None then [entry_id q] else [])"
    using try_block_completed_ids [of orc idn cs uuid t_start t_end q tr] Pair by simp
  show ?thesis
  proof (cases r)
    case None
    then show ?thesis using Pair ids by (simp add: processExecution_resume_def)
  next
    case (Some err)
    then show ?thesis using Pair ids
      by (simp add: processExecution_resume_def catch_block_completed_ids)
  qed
qed

lemma resume_completed_ids_accepting:
  assumes "\<And>tr e. is_completed e \<Longrightarrow> orc tr e = None"
  shows "completed_ids (processExecution_resume orc idn cs uuid t_start t_end t_catch q tr)
     = completed_ids tr @ [entry_id q]"
proof (cases "try_block orc idn cs uuid t_start t_end q tr")
  case (Pair r tr')
  have ids: "completed_ids tr' = completed_ids tr @ (if r = None then [entry_id q] else [])"
    using try_block_completed_ids [of orc idn cs uuid t_start t_end q tr] Pair by simp
  show ?thesis
  proof (cases r)
    case None
    then show ?thesis using Pair ids by (simp add: processExecution_resume_def)
  next
    case (Some err)
    then show ?thesis using Pair ids
      by (simp add: processExecution_resume_def catch_block_completed_ids assms)
  qed
qed

text \<open>
  Claim C4, as amended. For an entry whose target cell \<open>c\<close> is in the store, and a store
  that accepts every commit, \<^verbatim>\<open>processExecution\<close> performs exactly these effects, in
  this order: the start event with the timestamp read before any work, the clearing of
  the cell's outputs, one output at position 0 whose payload is \<open>spec_payload\<close> (the
  source for a cell that is not of type \<^verbatim>\<open>ai\<close>, the reply sentence for one that is), and
  the completion with status \<^verbatim>\<open>success\<close> and a duration that is the end reading minus
  the start reading, non-negative when the clock did not step back between the two.
\<close>

theorem processExecution_accepted_sequence:
  assumes found: "filter (\<lambda>c. cell_id c = cellId q) cs = c # rest"
  shows "processExecution accept_all idn cs uuid t_start t_end t_catch q tr = tr @
     [ConsoleLog (MsgProcessing (cellId q)),
      Commit (ExecutionStarted (entry_id q) (cellId q) (SESSION_ID idn) t_start),
      Commit (CellOutputsCleared (cell_id c) (''kernel-'' @ KERNEL_ID idn)),
      Commit (CellOutputAdded uuid (cell_id c) ''execute_result''
                (spec_payload (cellType c) (source c)) 0),
      Commit (ExecutionCompleted (entry_id q) (cellId q) ''success'' None t_end
                (t_end - t_start)),
      ConsoleLog (MsgCompleted (t_end - t_start))]
    \<and> (t_start \<le> t_end \<longrightarrow> 0 \<le> t_end - t_start)"
  using found
  by (simp add: processExecution_def processExecution_resume_def processExecution_begin_def
      try_block_def and_then_def commit_def accept_all_def outputData_spec)

text \<open>
  Claim C4 as stated fails for a cell of type \<^verbatim>\<open>ai\<close>: the payload committed for the
  source \<^verbatim>\<open>print(1)\<close> is not that source.
\<close>

theorem ai_cell_payload_is_not_source:
  "payloads (committed (processExecution accept_all \<lparr>KERNEL_ID = ''k'', SESSION_ID = ''s1''\<rparr>
      [\<lparr>cell_id = ''c1'', cellType = ''ai'', source = Some ''print(1)''\<rparr>] ''u1'' 10 12 13
      \<lparr>entry_id = ''w1'', cellId = ''c1'', status = ''assigned'', priority = 5\<rparr> []))
   \<noteq> [''print(1)'']"
  by (simp add: processExecution_def processExecution_resume_def processExecution_begin_def
      try_block_def and_then_def commit_def accept_all_def outputData_def payloads_def)

text \<open>Scenario B of the specification, as an instance of the theorem for C4.\<close>

theorem processExecution_accepted_sequence_witness:
  "filter (\<lambda>c. cell_id c = cellId \<lparr>entry_id = ''w1'', cellId = ''c1'', status = ''assigned'', priority = 5\<rparr>)
      [\<lparr>cell_id = ''c1'', cellType = ''code'', source = Some ''print(1)''\<rparr>]
     = [\<lparr>cell_id = ''c1'', cellType = ''code'', source = Some ''print(1)''\<rparr>]
   \<and> (10::int) \<le> 12
   \<and> processExecution accept_all \<lparr>KERNEL_ID = ''k'', SESSION_ID = ''s1''\<rparr>
      [\<lparr>cell_id = ''c1'', cellType = ''code'', source = Some ''print(1)''\<rparr>] ''u1'' 10 12 13
      \<lparr>entry_id = ''w1'', cellId = ''c1'', status = ''assigned'', priority = 5\<rparr> []
     = [ConsoleLog (MsgProcessing ''c1''),
        Commit (ExecutionStarted ''w1'' ''c1'' ''s1'' 10),
        Commit (CellOutputsCleared ''c1'' ''kernel-k''),
        Commit (CellOutputAdded ''u1'' ''c1'' ''execute_result'' ''print(1)'' 0),
        Commit (ExecutionCompleted ''w1'' ''c1'' ''success'' None 12 2),
        ConsoleLog (MsgCompleted 2)]"
proof -
  have f: "filter (\<lambda>c. cell_id c = cellId \<lparr>entry_id = ''w1'', cellId = ''c1'', status = ''assigned'', priority = 5\<rparr>)
      [\<lparr>cell_id = ''c1'', cellType = ''code'', source = Some ''print(1)''\<rparr>]
     = [\<lparr>cell_id = ''c1'', cellType = ''code'', source = Some ''print(1)''\<rparr>]"
    by simp
  show ?thesis
    using processExecution_accepted_sequence [OF f, of "\<lparr>KERNEL_ID = ''k'', SESSION_ID = ''s1''\<rparr>" "''u1''" 10 12 13 "[]"] f
    by (simp add: spec_payload_def)
qed


lemma try_block_not_found:
  "filter (\<lambda>c. cell_id c = cellId q) cs = [] \<Longrightarrow>
   try_block orc idn cs uuid t_start t_end q tr
     = (Some (ErrorObj (''Cell '' @ cellId q @ '' not found'')), tr)"
  by (simp add: try_block_def)

lemma try_block_early_error:
  assumes "try_block orc idn cs uuid t_start t_end q tr = (Some err, tr')"
      and "filter is_completed (attempted tr') = filter is_completed (attempted tr)"
  shows "filter is_output (committed tr') = filter is_output (committed tr)"
  using assms
  by (cases rule: try_block_outcome [where q=q and cs=cs and orc=orc and idn=idn and uuid=uuid
        and t_start=t_start and t_end=t_end and tr=tr]) auto

text \<open>
  Claim C5, as amended. When the target cell is not found, the \<^verbatim>\<open>try\<close> block throws
  an error whose message is \<^verbatim>\<open>Cell <cellId> not found\<close>, before any commit. Whenever the
  \<^verbatim>\<open>try\<close> block throws \<open>err\<close>, the handler tries exactly one more commit: the completion
  with status \<^verbatim>\<open>error\<close>, the message of \<open>err\<close>, and the duration from the start reading
  to the handler's own clock reading; the event is in the log when the store accepts it.
  When no completion was attempted inside the \<^verbatim>\<open>try\<close> block (the error came from the
  lookup or from the commit of the start, the clearing or the output), no output-added
  event is committed by the execution.
\<close>

theorem processExecution_failure_path:
  "(filter (\<lambda>c. cell_id c = cellId q) cs = [] \<longrightarrow>
      try_block orc idn cs uuid t_start t_end q tr
        = (Some (ErrorObj (''Cell '' @ cellId q @ '' not found'')), tr))
   \<and> (try_block orc idn cs uuid t_start t_end q tr = (Some err, tr') \<longrightarrow>
        attempted (processExecution_resume orc idn cs uuid t_start t_end t_catch q tr)
          = attempted tr' @ [ExecutionCompleted (entry_id q) (cellId q) ''error''
                               (Some (error_message err)) t_catch (t_catch - t_start)]
        \<and> (orc (tr' @ [ConsoleError (MsgExecutionError err)])
               (ExecutionCompleted (entry_id q) (cellId q) ''error''
                  (Some (error_message err)) t_catch (t_catch - t_start)) = None \<longrightarrow>
             committed (processExecution_resume orc idn cs uuid t_start t_end t_catch q tr)
               = committed tr' @ [ExecutionCompleted (entry_id q) (cellId q) ''error''
                                    (Some (error_message err)) t_catch (t_catch - t_start)])
        \<and> (filter is_completed (attempted tr') = filter is_completed (attempted tr) \<longrightarrow>
             filter is_output (committed
                (processExecution_resume orc idn cs uuid t_start t_end t_catch q tr))
               = filter is_output (committed tr)))"
proof (intro conjI impI)
  assume "filter (\<lambda>c. cell_id c = cellId q) cs = []"
  then show "try_block orc idn cs uuid t_start t_end q tr
        = (Some (ErrorObj (''Cell '' @ cellId q @ '' not found'')), tr)"
    by (rule try_block_not_found)
next
  assume t: "try_block orc idn cs uuid t_start t_end q tr = (Some err, tr')"
  show "attempted (processExecution_resume orc idn cs uuid t_start t_end t_catch q tr)
          = attempted tr' @ [ExecutionCompleted (entry_id q) (cellId q) ''error''
                               (Some (error_message err)) t_catch (t_catch - t_start)]"
    by (cases rule: catch_block_outcome [where orc=orc and tr=tr' and err=err and q=q
          and t_catch=t_catch and t_start=t_start])
       (simp_all add: processExecution_resume_def t)
next
  assume t: "try_block orc idn cs uuid t_start t_end q tr = (Some err, tr')"
     and "orc (tr' @ [ConsoleError (MsgExecutionError err)])
               (ExecutionCompleted (entry_id q) (cellId q) ''error''
                  (Some (error_message err)) t_catch (t_catch - t_start)) = None"
  then show "committed (processExecution_resume orc idn cs uuid t_start t_end t_catch q tr)
               = committed tr' @ [ExecutionCompleted (entry_id q) (cellId q) ''error''
                                    (Some (error_message err)) t_catch (t_catch - t_start)]"
    by (simp add: processExecution_resume_def catch_block_def commit_def)
next
  assume t: "try_block orc idn cs uuid t_start t_end q tr = (Some err, tr')"
     and early: "filter is_completed (attempted tr') = filter is_completed (attempted tr)"
  have "filter is_output (committed (catch_block orc t_start t_catch q err tr'))
          = filter is_output (committed tr')"
    by (cases rule: catch_block_outcome [where orc=orc and tr=tr' and err=err and q=q
          and t_catch=t_catch and t_start=t_start]) simp_all
  then show "filter is_output (committed
                (processExecution_resume orc idn cs uuid t_start t_end t_catch q tr))
               = filter is_output (committed tr)"
    using try_block_early_error [OF t early] by (simp add: processExecution_resume_def t)
qed

text \<open>
  Claim C5 as stated fails when the error is thrown by the commit of the success
  completion: the error is caught and the failure completion is committed, but the
  output-added event is already in the log.
\<close>

theorem rejected_success_completion_keeps_output:
  "committed (processExecution reject_success \<lparr>KERNEL_ID = ''k'', SESSION_ID = ''s1''\<rparr>
      [\<lparr>cell_id = ''c1'', cellType = ''code'', source = Some ''print(1)''\<rparr>] ''u1'' 10 12 13
      \<lparr>entry_id = ''w1'', cellId = ''c1'', status = ''assigned'', priority = 5\<rparr> [])
   = [ExecutionStarted ''w1'' ''c1'' ''s1'' 10,
      CellOutputsCleared ''c1'' ''kernel-k'',
      CellOutputAdded ''u1'' ''c1'' ''execute_result'' ''print(1)'' 0,
      ExecutionCompleted ''w1'' ''c1'' ''error'' (Some ''rejected'') 13 3]"
  by (simp add: processExecution_def processExecution_resume_def processExecution_begin_def
      try_block_def catch_block_def and_then_def commit_def reject_success_def outputData_def)

text \<open>Scenario C of the specification, as an instance of the theorem for C5.\<close>

theorem processExecution_failure_path_witness:
  "filter (\<lambda>c. cell_id c = cellId \<lparr>entry_id = ''w1'', cellId = ''c1'', status = ''assigned'', priority = 5\<rparr>) [] = []
   \<and> try_block accept_all \<lparr>KERNEL_ID = ''k'', SESSION_ID = ''s1''\<rparr> [] ''u1'' 10 12
        \<lparr>entry_id = ''w1'', cellId = ''c1'', status = ''assigned'', priority = 5\<rparr> []
       = (Some (ErrorObj ''Cell c1 not found''), [])
   \<and> accept_all ([] @ [ConsoleError (MsgExecutionError (ErrorObj ''Cell c1 not found''))])
        (ExecutionCompleted ''w1'' ''c1'' ''error'' (Some ''Cell c1 not found'') 13 3) = None
   \<and> filter is_completed (attempted []) = filter is_completed (attempted [])
   \<and> committed (processExecution_resume accept_all \<lparr>KERNEL_ID = ''k'', SESSION_ID = ''s1''\<rparr>
        [] ''u1'' 10 12 13
        \<lparr>entry_id = ''w1'', cellId = ''c1'', status = ''assigned'', priority = 5\<rparr> [])
       = [ExecutionCompleted ''w1'' ''c1'' ''error'' (Some ''Cell c1 not found'') 13 3]
   \<and> filter is_output (committed (processExecution_resume accept_all
        \<lparr>KERNEL_ID = ''k'', SESSION_ID = ''s1''\<rparr> [] ''u1'' 10 12 13
        \<lparr>entry_id = ''w1'', cellId = ''c1'', status = ''assigned'', priority = 5\<rparr> [])) = []"
  using processExecution_failure_path [of "\<lparr>entry_id = ''w1'', cellId = ''c1'', status = ''assigned'', priority = 5\<rparr>"
      "[]" accept_all "\<lparr>KERNEL_ID = ''k'', SESSION_ID = ''s1''\<rparr>" "''u1''" 10 12 "[]"
      "ErrorObj ''Cell c1 not found''" "[]" 13]
  by (simp add: accept_all_def)

section \<open>Properties of the claim coordinator\<close>


lemma claim_pending_trace:
  "claim_pending orc idn ks entries tr =
     (if SESSION_ID idn \<in> sessionId ` set (activeKernelsQuery ks) then
        (case entries of
           [] \<Rightarrow> tr
         | firstPending # _ \<Rightarrow>
             if status firstPending = ''pending''
             then (case orc tr (ExecutionAssigned (entry_id firstPending) (SESSION_ID idn)) of
                     None \<Rightarrow> tr @ [Commit (ExecutionAssigned (entry_id firstPending) (SESSION_ID idn))]
                   | Some x \<Rightarrow> tr @ [CommitThrew (ExecutionAssigned (entry_id firstPending)
                                                    (SESSION_ID idn)) x])
             else tr)
      else tr)"
proof (cases "find (\<lambda>k. sessionId k = SESSION_ID idn) (activeKernelsQuery ks)")
  case None
  then have "SESSION_ID idn \<notin> sessionId ` set (activeKernelsQuery ks)"
    by (auto simp: find_None_iff)
  then show ?thesis using None by (simp add: claim_pending_def)
next
  case (Some k)
  then have "SESSION_ID idn \<in> sessionId ` set (activeKernelsQuery ks)"
    by (metis (mono_tags, lifting) find_Some_iff image_eqI nth_mem)
  then show ?thesis using Some
    by (simp add: claim_pending_def commit_def split: list.splits option.splits)
qed

lemma pending_refresh_eq:
  "pending_refresh orc idn ss entries inp a =
     (if exited a \<noteq> None \<or> \<not> pendingWorkSubscription a \<or> isShuttingDown a then a
      else a\<lparr>trace := claim_pending orc idn (in_kernelSessions inp) entries
                         (if entries = [] then trace a
                          else trace a @ [ConsoleLog (MsgPending (length entries))])\<rparr>)"
  by (simp add: pending_refresh_def step_def pendingWork_onUpdate_def run_task_def set_task_def)


lemma pendingWorkQuery_head:
  assumes "pendingWorkQuery queue = first # rest"
  shows "first \<in> set queue \<and> status first = ''pending'' \<and>
         (\<forall>e \<in> set queue. status e = ''pending'' \<longrightarrow> priority e \<le> priority first)"
proof -
  let ?ps = "filter (\<lambda>e. status e = ''pending'') queue"
  have s: "sort_key (\<lambda>e. - priority e) ?ps = first # rest"
    using assms by (simp add: pendingWorkQuery_def)
  have "set (sort_key (\<lambda>e. - priority e) ?ps) = set ?ps" by simp
  then have mem: "set ?ps = insert first (set rest)" using s by simp
  have "sorted (map (\<lambda>e. - priority e) (sort_key (\<lambda>e. - priority e) ?ps))"
    by (rule sorted_sort_key)
  then have le: "\<forall>e \<in> set rest. - priority first \<le> - priority e" using s by simp
  have "\<forall>e \<in> set ?ps. priority e \<le> priority first"
    using mem le by auto
  moreover have "first \<in> set ?ps" using mem by simp
  ultimately show ?thesis by auto
qed

lemma claim_pending_attempted:
  "\<exists>new. attempted (claim_pending orc idn ks entries tr) = attempted tr @ new
     \<and> length new \<le> 1
     \<and> (SESSION_ID idn \<notin> sessionId ` set (activeKernelsQuery ks) \<or> entries = [] \<longrightarrow> new = [])
     \<and> (\<forall>first rest. entries = first # rest \<longrightarrow>
           new = [] \<or> new = [ExecutionAssigned (entry_id first) (SESSION_ID idn)])"
  by (cases entries) (simp_all add: claim_pending_trace split: option.splits)

text \<open>
  Claim C3. One refresh of the pending-work view, from \<^verbatim>\<open>onUpdate\<close> to the end of its
  timer callback, attempts at most one commit, whatever the state of the agent. It
  attempts none when the session is not among the active sessions or the sequence is
  empty. An attempt is the assignment of the head entry's identifier to this session's
  identifier; when the sequence is the result of the pending-work query, the head is a
  pending entry of the queue of highest priority.
\<close>

theorem pending_refresh_at_most_one_claim:
  "\<exists>new. attempted (trace (pending_refresh orc idn ss entries inp a)) = attempted (trace a) @ new
     \<and> length new \<le> 1
     \<and> (SESSION_ID idn \<notin> sessionId ` set (activeKernelsQuery (in_kernelSessions inp))
          \<or> entries = [] \<longrightarrow> new = [])
     \<and> (\<forall>first rest. entries = first # rest \<longrightarrow>
           new = [] \<or> new = [ExecutionAssigned (entry_id first) (SESSION_ID idn)])
     \<and> (\<forall>queue first rest. entries = pendingWorkQuery queue \<and> entries = first # rest \<longrightarrow>
           first \<in> set queue \<and> status first = ''pending'' \<and>
           (\<forall>e \<in> set queue. status e = ''pending'' \<longrightarrow> priority e \<le> priority first))"
proof -
  have q: "\<forall>queue first rest. entries = pendingWorkQuery queue \<and> entries = first # rest \<longrightarrow>
           first \<in> set queue \<and> status first = ''pending'' \<and>
           (\<forall>e \<in> set queue. status e = ''pending'' \<longrightarrow> priority e \<le> priority first)"
    using pendingWorkQuery_head by metis
  show ?thesis
  proof (cases "exited a \<noteq> None \<or> \<not> pendingWorkSubscription a \<or> isShuttingDown a")
    case True
    then have "pending_refresh orc idn ss entries inp a = a"
      by (simp add: pending_refresh_eq)
    then show ?thesis using q by simp
  next
    case False
    let ?tr = "if entries = [] then trace a
               else trace a @ [ConsoleLog (MsgPending (length entries))]"
    have t: "trace (pending_refresh orc idn ss entries inp a)
        = claim_pending orc idn (in_kernelSessions inp) entries ?tr"
      using False by (simp add: pending_refresh_eq)
    have tr: "attempted ?tr = attempted (trace a)" by simp
    show ?thesis
      using claim_pending_attempted [of orc idn "in_kernelSessions inp" entries ?tr] q
      unfolding t tr by blast
  qed
qed

text \<open>
  Claim C6. When the store rejects the assignment, the refresh changes nothing but the
  trace, to which it adds the count of pending entries (an informational line) and the
  rejected attempt. No error line is printed and no exception leaves the callback; the
  waiting tasks are the same as before, so nothing is scheduled to retry, and the ledger
  and the flags are untouched. The entry is looked at again only by a later refresh.
\<close>

theorem rejected_assignment_is_absorbed:
  assumes "exited a = None" "pendingWorkSubscription a" "\<not> isShuttingDown a"
      and "SESSION_ID idn \<in> sessionId ` set (activeKernelsQuery (in_kernelSessions inp))"
      and "status first = ''pending''"
      and "orc (trace a @ [ConsoleLog (MsgPending (Suc (length rest)))])
             (ExecutionAssigned (entry_id first) (SESSION_ID idn)) = Some x"
  shows "pending_refresh orc idn ss (first # rest) inp a =
           a\<lparr>trace := trace a @
                [ConsoleLog (MsgPending (Suc (length rest))),
                 CommitThrew (ExecutionAssigned (entry_id first) (SESSION_ID idn)) x]\<rparr>"
  using assms by (simp add: pending_refresh_eq claim_pending_trace)

lemmas scenario_defs = scenario_config_def scenario_ident_def scenario_agent_def
  scenario_w1_def scenario_inputs_def

lemmas loop_defs = step_def run_task_def continue_loop_def set_task_def
  assignedWork_onUpdate_def pendingWork_onUpdate_def processExecution_begin_def
  processExecution_resume_def try_block_def catch_block_def and_then_def commit_def
  outputData_def

lemma rejecting_startup:
  "\<not> kind (KernelSessionStarted ''s1'' ''k1'' ''echo'' True False True) \<Longrightarrow>
   \<not> kind (KernelSessionHeartbeat ''s1'' ''ready'' 0) \<Longrightarrow>
   startup (rejecting kind) scenario_config scenario_ident None 0 = Running scenario_agent"
  by (simp add: startup_def and_then_def commit_def rejecting_def scenario_defs
      AUTH_TOKEN_def NOTEBOOK_ID_def)

text \<open>
  Scenario A of the specification, as instances of the theorem for C3: no claim while no
  session is active, then the claim of \<^verbatim>\<open>w1\<close>, the pending entry of highest priority.
\<close>

theorem pending_refresh_at_most_one_claim_witness:
  "SESSION_ID scenario_ident
     \<notin> sessionId ` set (activeKernelsQuery (in_kernelSessions
           (scenario_inputs\<lparr>in_kernelSessions := []\<rparr>)))
   \<and> attempted (trace (pending_refresh accept_all scenario_ident (Some None)
         [scenario_w1 ''pending''] (scenario_inputs\<lparr>in_kernelSessions := []\<rparr>)
         scenario_agent))
       = attempted (trace scenario_agent)
   \<and> pendingWorkQuery
        [\<lparr>entry_id = ''w0'', cellId = ''c0'', status = ''pending'', priority = 1\<rparr>,
         scenario_w1 ''pending'',
         \<lparr>entry_id = ''w2'', cellId = ''c2'', status = ''assigned'', priority = 9\<rparr>]
       = [scenario_w1 ''pending'',
          \<lparr>entry_id = ''w0'', cellId = ''c0'', status = ''pending'', priority = 1\<rparr>]
   \<and> attempted (trace (pending_refresh accept_all scenario_ident (Some None)
         (pendingWorkQuery
            [\<lparr>entry_id = ''w0'', cellId = ''c0'', status = ''pending'', priority = 1\<rparr>,
             scenario_w1 ''pending'',
             \<lparr>entry_id = ''w2'', cellId = ''c2'', status = ''assigned'', priority = 9\<rparr>])
         scenario_inputs scenario_agent))
       = attempted (trace scenario_agent) @ [ExecutionAssigned ''w1'' ''s1'']"
proof -
  have q: "pendingWorkQuery
        [\<lparr>entry_id = ''w0'', cellId = ''c0'', status = ''pending'', priority = 1\<rparr>,
         scenario_w1 ''pending'',
         \<lparr>entry_id = ''w2'', cellId = ''c2'', status = ''assigned'', priority = 9\<rparr>]
       = [scenario_w1 ''pending'',
          \<lparr>entry_id = ''w0'', cellId = ''c0'', status = ''pending'', priority = 1\<rparr>]"
    by (simp add: pendingWorkQuery_def scenario_w1_def)
  show ?thesis
    using pending_refresh_at_most_one_claim [of accept_all scenario_ident "Some None" "[scenario_w1 ''pending'']"
        "scenario_inputs\<lparr>in_kernelSessions := []\<rparr>" scenario_agent]
      pending_refresh_at_most_one_claim [of accept_all scenario_ident "Some None"
        "[scenario_w1 ''pending'',
          \<lparr>entry_id = ''w0'', cellId = ''c0'', status = ''pending'', priority = 1\<rparr>]"
        scenario_inputs scenario_agent]
    unfolding q
    by (simp add: pending_refresh_eq claim_pending_trace scenario_defs activeKernelsQuery_def
        accept_all_def)
qed

text \<open>The losing side of scenario D, as an instance of the theorem for C6.\<close>

theorem rejected_assignment_is_absorbed_witness:
  "exited scenario_agent = None \<and> pendingWorkSubscription scenario_agent
   \<and> \<not> isShuttingDown scenario_agent
   \<and> SESSION_ID scenario_ident
        \<in> sessionId ` set (activeKernelsQuery (in_kernelSessions scenario_inputs))
   \<and> status (scenario_w1 ''pending'') = ''pending''
   \<and> rejecting is_assignment (trace scenario_agent @ [ConsoleLog (MsgPending (Suc (length [])))])
        (ExecutionAssigned (entry_id (scenario_w1 ''pending'')) (SESSION_ID scenario_ident))
       = Some (ErrorObj ''rejected'')
   \<and> pending_refresh (rejecting is_assignment) scenario_ident (Some None)
        [scenario_w1 ''pending''] scenario_inputs scenario_agent
       = scenario_agent\<lparr>trace := trace scenario_agent @
           [ConsoleLog (MsgPending 1),
            CommitThrew (ExecutionAssigned ''w1'' ''s1'') (ErrorObj ''rejected'')]\<rparr>"
proof -
  have h: "exited scenario_agent = None" "pendingWorkSubscription scenario_agent"
    "\<not> isShuttingDown scenario_agent"
    "SESSION_ID scenario_ident
        \<in> sessionId ` set (activeKernelsQuery (in_kernelSessions scenario_inputs))"
    "status (scenario_w1 ''pending'') = ''pending''"
    "rejecting is_assignment (trace scenario_agent @ [ConsoleLog (MsgPending (Suc (length [])))])
        (ExecutionAssigned (entry_id (scenario_w1 ''pending'')) (SESSION_ID scenario_ident))
       = Some (ErrorObj ''rejected'')"
    by (simp_all add: scenario_defs activeKernelsQuery_def rejecting_def)
  show ?thesis
    using rejected_assignment_is_absorbed [where orc="rejecting is_assignment"
        and a=scenario_agent and idn=scenario_ident and inp=scenario_inputs
        and first="scenario_w1 ''pending''" and rest="[]" and x="ErrorObj ''rejected''"
        and ss="Some None", OF h] h
    by (simp add: scenario_w1_def scenario_ident_def)
qed

section \<open>Properties of startup\<close>


lemma startup_missing_config:
  assumes "\<not> arg_help cfg" "falsy (AUTH_TOKEN cfg) \<or> falsy (NOTEBOOK_ID cfg)"
  shows "\<exists>tr. startup orc cfg idn sc hb = Exited 1 tr \<and> (\<exists>m. ConsoleError m \<in> set tr)
           \<and> attempted tr = [] \<and> (\<forall>s. Subscribe s \<notin> set tr) \<and> SetInterval \<notin> set tr"
  using assms by (auto simp: startup_def)

lemma startup_registration_rejected:
  assumes "\<not> arg_help cfg" "\<not> falsy (AUTH_TOKEN cfg)" "\<not> falsy (NOTEBOOK_ID cfg)"
      and "orc [ConsoleLog (MsgStarting (nullish_or (NOTEBOOK_ID cfg) []))]
             (KernelSessionStarted (SESSION_ID idn) (KERNEL_ID idn) ''echo'' True False True)
           = Some x"
  shows "startup orc cfg idn None hb =
           Uncaught x [ConsoleLog (MsgStarting (nullish_or (NOTEBOOK_ID cfg) [])),
                       CommitThrew (KernelSessionStarted (SESSION_ID idn) (KERNEL_ID idn)
                                      ''echo'' True False True) x,
                       ConsoleError (MsgRegisterFailed x)]"
  using assms by (simp add: startup_def and_then_def commit_def)

lemma startup_registration_accepted:
  assumes "\<not> arg_help cfg" "\<not> falsy (AUTH_TOKEN cfg)" "\<not> falsy (NOTEBOOK_ID cfg)"
      and "orc [ConsoleLog (MsgStarting (nullish_or (NOTEBOOK_ID cfg) []))]
             (KernelSessionStarted (SESSION_ID idn) (KERNEL_ID idn) ''echo'' True False True)
           = None"
  shows "\<exists>h rest. outcome_trace (startup orc cfg idn None hb) =
           [ConsoleLog (MsgStarting (nullish_or (NOTEBOOK_ID cfg) [])),
            Commit (KernelSessionStarted (SESSION_ID idn) (KERNEL_ID idn)
                      ''echo'' True False True), h] @ rest
         \<and> attempted [h] = [KernelSessionHeartbeat (SESSION_ID idn) ''ready'' hb]
         \<and> attempted rest = []"
  using assms by (auto simp: startup_def and_then_def commit_def split: option.splits)

lemma startup_Running_state:
  assumes "startup orc cfg idn sc hb = Running a0"
  shows "a0 = \<lparr>isShuttingDown = False, processedExecutions = {},
               assignedWorkSubscription = True, pendingWorkSubscription = True,
               activeKernelsSubscription = True, heartbeatInterval = True, tasks = [],
               trace = [ConsoleLog (MsgStarting (nullish_or (NOTEBOOK_ID cfg) [])),
                        Commit (KernelSessionStarted (SESSION_ID idn) (KERNEL_ID idn)
                                  ''echo'' True False True),
                        Commit (KernelSessionHeartbeat (SESSION_ID idn) ''ready'' hb),
                        ConsoleLog MsgConnected,
                        Subscribe AssignedWork, Subscribe PendingWork,
                        Subscribe ActiveKernels, SetInterval, ConsoleLog MsgPressCtrlC],
               exited = None, terminated = None\<rparr>"
proof -
  let ?tr0 = "[ConsoleLog (MsgStarting (nullish_or (NOTEBOOK_ID cfg) []))]"
  let ?reg = "KernelSessionStarted (SESSION_ID idn) (KERNEL_ID idn) ''echo'' True False True"
  let ?beat = "KernelSessionHeartbeat (SESSION_ID idn) ''ready'' hb"
  have cfg: "\<not> arg_help cfg" "\<not> falsy (AUTH_TOKEN cfg)" "\<not> falsy (NOTEBOOK_ID cfg)"
    using assms by (auto simp: startup_def split: if_splits)
  have sc: "sc = None"
    using assms cfg by (cases sc) (simp_all add: startup_def)
  have reg: "orc ?tr0 ?reg = None"
    using assms cfg sc by (cases "orc ?tr0 ?reg") (simp_all add: startup_def and_then_def commit_def)
  have beat: "orc (?tr0 @ [Commit ?reg]) ?beat = None"
    using assms cfg sc reg
    by (cases "orc (?tr0 @ [Commit ?reg]) ?beat")
       (simp_all add: startup_def and_then_def commit_def)
  show ?thesis
    using assms cfg sc reg beat by (simp add: startup_def and_then_def commit_def)
qed

lemma startup_Running:
  assumes "startup orc cfg idn sc hb = Running a0"
  shows "before_shutdown a0 \<and> ledger_inv a0"
  unfolding startup_Running_state [OF assms]
  by (simp add: before_shutdown_def ledger_inv_def)

lemma scenario_startup:
  "startup accept_all scenario_config scenario_ident None 0 = Running scenario_agent"
  by (simp add: startup_def and_then_def commit_def accept_all_def scenario_config_def
      scenario_ident_def scenario_agent_def AUTH_TOKEN_def NOTEBOOK_ID_def)

lemma startup_not_Running:
  assumes "\<not> arg_help cfg"
      and "falsy (AUTH_TOKEN cfg) \<or> falsy (NOTEBOOK_ID cfg) \<or>
           (sc = None \<and>
            orc [ConsoleLog (MsgStarting (nullish_or (NOTEBOOK_ID cfg) []))]
              (KernelSessionStarted (SESSION_ID idn) (KERNEL_ID idn) ''echo'' True False True)
            = Some x)"
  shows "exit_status (startup orc cfg idn sc hb) = Some 1
       \<and> (\<exists>m. ConsoleError m \<in> set (outcome_trace (startup orc cfg idn sc hb)))
       \<and> (\<forall>a. startup orc cfg idn sc hb \<noteq> Running a)
       \<and> (\<forall>s. Subscribe s \<notin> set (outcome_trace (startup orc cfg idn sc hb)))
       \<and> filter is_assignment (attempted (outcome_trace (startup orc cfg idn sc hb))) = []"
proof (cases "falsy (AUTH_TOKEN cfg) \<or> falsy (NOTEBOOK_ID cfg)")
  case True
  then obtain tr where "startup orc cfg idn sc hb = Exited 1 tr"
    "\<exists>m. ConsoleError m \<in> set tr" "attempted tr = []" "\<forall>s. Subscribe s \<notin> set tr"
    using startup_missing_config [where cfg=cfg and orc=orc and idn=idn and sc=sc and hb=hb]
      assms(1) by blast
  then show ?thesis by simp
next
  case False
  then have "sc = None" and
    "orc [ConsoleLog (MsgStarting (nullish_or (NOTEBOOK_ID cfg) []))]
       (KernelSessionStarted (SESSION_ID idn) (KERNEL_ID idn) ''echo'' True False True)
     = Some x"
    using assms(2) by auto
  then show ?thesis
    using startup_registration_rejected [where cfg=cfg and orc=orc and idn=idn and x=x and hb=hb]
      assms(1) False by simp
qed

text \<open>
  Claim C9. When help is not requested: if the authentication token or the notebook
  identifier is missing, or the store throws on the registration commit, the process
  ends with status 1 after an error line, the agent is never set up, no subscription is
  made and no assignment is attempted. If the store accepts the registration, the next
  effect is the attempt to commit the heartbeat, and nothing else is committed at
  startup. The agent is set up only after both commits, and its subscriptions come after
  them.
\<close>

theorem startup_fatal_or_ready:
  assumes "\<not> arg_help cfg"
  shows "(falsy (AUTH_TOKEN cfg) \<or> falsy (NOTEBOOK_ID cfg) \<or>
          (sc = None \<and>
           orc [ConsoleLog (MsgStarting (nullish_or (NOTEBOOK_ID cfg) []))]
             (KernelSessionStarted (SESSION_ID idn) (KERNEL_ID idn) ''echo'' True False True)
           = Some x) \<longrightarrow>
            exit_status (startup orc cfg idn sc hb) = Some 1
          \<and> (\<exists>m. ConsoleError m \<in> set (outcome_trace (startup orc cfg idn sc hb)))
          \<and> (\<forall>a. startup orc cfg idn sc hb \<noteq> Running a)
          \<and> (\<forall>s. Subscribe s \<notin> set (outcome_trace (startup orc cfg idn sc hb)))
          \<and> filter is_assignment (attempted (outcome_trace (startup orc cfg idn sc hb))) = [])
       \<and> (\<not> falsy (AUTH_TOKEN cfg) \<and> \<not> falsy (NOTEBOOK_ID cfg) \<and> sc = None \<and>
           orc [ConsoleLog (MsgStarting (nullish_or (NOTEBOOK_ID cfg) []))]
             (KernelSessionStarted (SESSION_ID idn) (KERNEL_ID idn) ''echo'' True False True)
           = None \<longrightarrow>
            (\<exists>h rest. outcome_trace (startup orc cfg idn sc hb) =
               [ConsoleLog (MsgStarting (nullish_or (NOTEBOOK_ID cfg) [])),
                Commit (KernelSessionStarted (SESSION_ID idn) (KERNEL_ID idn)
                          ''echo'' True False True), h] @ rest
             \<and> attempted [h] = [KernelSessionHeartbeat (SESSION_ID idn) ''ready'' hb]
             \<and> attempted rest = []))
       \<and> (startup orc cfg idn sc hb = Running a0 \<longrightarrow>
            trace a0 =
              [ConsoleLog (MsgStarting (nullish_or (NOTEBOOK_ID cfg) [])),
               Commit (KernelSessionStarted (SESSION_ID idn) (KERNEL_ID idn)
                         ''echo'' True False True),
               Commit (KernelSessionHeartbeat (SESSION_ID idn) ''ready'' hb),
               ConsoleLog MsgConnected,
               Subscribe AssignedWork, Subscribe PendingWork, Subscribe ActiveKernels,
               SetInterval, ConsoleLog MsgPressCtrlC]
          \<and> tasks a0 = [])"
proof (intro conjI impI)
  assume "startup orc cfg idn sc hb = Running a0"
  then show "trace a0 =
              [ConsoleLog (MsgStarting (nullish_or (NOTEBOOK_ID cfg) [])),
               Commit (KernelSessionStarted (SESSION_ID idn) (KERNEL_ID idn)
                         ''echo'' True False True),
               Commit (KernelSessionHeartbeat (SESSION_ID idn) ''ready'' hb),
               ConsoleLog MsgConnected,
               Subscribe AssignedWork, Subscribe PendingWork, Subscribe ActiveKernels,
               SetInterval, ConsoleLog MsgPressCtrlC]"
    using startup_Running_state by fastforce
next
  assume "startup orc cfg idn sc hb = Running a0"
  then show "tasks a0 = []" using startup_Running_state by fastforce
next
  assume "\<not> falsy (AUTH_TOKEN cfg) \<and> \<not> falsy (NOTEBOOK_ID cfg) \<and> sc = None \<and>
           orc [ConsoleLog (MsgStarting (nullish_or (NOTEBOOK_ID cfg) []))]
             (KernelSessionStarted (SESSION_ID idn) (KERNEL_ID idn) ''echo'' True False True)
           = None"
  then show "\<exists>h rest. outcome_trace (startup orc cfg idn sc hb) =
               [ConsoleLog (MsgStarting (nullish_or (NOTEBOOK_ID cfg) [])),
                Commit (KernelSessionStarted (SESSION_ID idn) (KERNEL_ID idn)
                          ''echo'' True False True), h] @ rest
             \<and> attempted [h] = [KernelSessionHeartbeat (SESSION_ID idn) ''ready'' hb]
             \<and> attempted rest = []"
    using startup_registration_accepted [where cfg=cfg and orc=orc and idn=idn and hb=hb] assms
    by simp
qed (use startup_not_Running [where cfg=cfg and sc=sc and orc=orc and idn=idn and x=x and hb=hb]
      assms in simp_all)

text \<open>
  A missing token, a rejected registration and a successful startup, as instances of
  the theorem for C9.
\<close>

theorem startup_fatal_or_ready_witness:
  "\<not> arg_help scenario_config
   \<and> falsy (AUTH_TOKEN (scenario_config\<lparr>arg_auth_token := None\<rparr>))
   \<and> startup accept_all (scenario_config\<lparr>arg_auth_token := None\<rparr>) scenario_ident None 0
       = Exited 1 [ConsoleError MsgAuthTokenRequired, ConsoleError MsgAuthTokenProvideVia,
                   ConsoleError MsgUseHelp]
   \<and> rejecting is_registration [ConsoleLog (MsgStarting ''nb1'')]
        (KernelSessionStarted ''s1'' ''k1'' ''echo'' True False True)
       = Some (ErrorObj ''rejected'')
   \<and> exit_status (startup (rejecting is_registration) scenario_config scenario_ident None 0)
       = Some 1
   \<and> attempted (outcome_trace
         (startup (rejecting is_registration) scenario_config scenario_ident None 0))
       = [KernelSessionStarted ''s1'' ''k1'' ''echo'' True False True]
   \<and> accept_all [ConsoleLog (MsgStarting ''nb1'')]
        (KernelSessionStarted ''s1'' ''k1'' ''echo'' True False True) = None
   \<and> startup accept_all scenario_config scenario_ident None 0 = Running scenario_agent
   \<and> attempted (trace scenario_agent)
       = [KernelSessionStarted ''s1'' ''k1'' ''echo'' True False True,
          KernelSessionHeartbeat ''s1'' ''ready'' 0]"
proof -
  have h: "\<not> arg_help scenario_config" "\<not> arg_help (scenario_config\<lparr>arg_auth_token := None\<rparr>)"
    by (simp_all add: scenario_config_def)
  show ?thesis
    using startup_fatal_or_ready [OF h(2), of None accept_all scenario_ident "ErrorObj ''rejected''" 0
        scenario_agent]
      startup_fatal_or_ready [OF h(1), of None "rejecting is_registration" scenario_ident "ErrorObj ''rejected''"
        0 scenario_agent]
      startup_fatal_or_ready [OF h(1), of None accept_all scenario_ident "ErrorObj ''rejected''" 0 scenario_agent]
      h(1)
    by (simp add: scenario_startup)
       (simp add: startup_def and_then_def commit_def accept_all_def rejecting_def
          scenario_defs AUTH_TOKEN_def NOTEBOOK_ID_def)
qed

section \<open>Properties of the dedup ledger\<close>


lemma same_ledger_view_inv: "same_ledger_view a b \<Longrightarrow> ledger_inv a \<Longrightarrow> ledger_inv b"
  by (simp add: same_ledger_view_def ledger_inv_def)

lemma awaiting_split:
  "i < length ts \<Longrightarrow>
   awaiting ts = awaiting (take i ts) @ awaiting [ts ! i] @ awaiting (drop (Suc i) ts)"
  using id_take_nth_drop [of i ts] awaiting_append
  by (metis append_Cons append_Nil)

lemma awaiting_update:
  "i < length ts \<Longrightarrow>
   awaiting (ts[i := t]) = awaiting (take i ts) @ awaiting [t] @ awaiting (drop (Suc i) ts)"
  using upd_conv_take_nth_drop [of i ts t] awaiting_append
  by (metis append_Cons append_Nil)

lemma assigned_loop_outcome:
  obtains (finished) "assigned_loop es a = (None, a)"
  | (suspended) e r where
      "assigned_loop es a =
         (Some (AssignedAwait e r),
          a\<lparr>processedExecutions := insert (entry_id e) (processedExecutions a),
            trace := trace a @ [Invoked (entry_id e), ConsoleLog (MsgProcessing (cellId e))]\<rparr>)"
      "entry_id e \<notin> processedExecutions a" "e \<in> set es"
proof (induction es arbitrary: thesis)
  case Nil
  then show ?case by simp
next
  case (Cons e es)
  show ?case
  proof (cases "entry_id e \<in> processedExecutions a")
    case True
    show ?thesis
    proof (rule Cons.IH)
      assume "assigned_loop es a = (None, a)"
      then show ?thesis using True Cons.prems(1) by simp
    next
      fix e' r
      assume "assigned_loop es a =
         (Some (AssignedAwait e' r),
          a\<lparr>processedExecutions := insert (entry_id e') (processedExecutions a),
            trace := trace a @ [Invoked (entry_id e'), ConsoleLog (MsgProcessing (cellId e'))]\<rparr>)"
        "entry_id e' \<notin> processedExecutions a" "e' \<in> set es"
      then show ?thesis using True Cons.prems(2) [of e' r] by simp
    qed
  next
    case False
    then show ?thesis using Cons.prems(2) [of e es]
      by (simp add: processExecution_begin_def)
  qed
qed

lemma try_block_invoked:
  "invoked (snd (try_block orc idn cs uuid t_start t_end q tr)) = invoked tr"
  by (cases rule: try_block_outcome [where q=q and cs=cs and orc=orc and idn=idn and uuid=uuid
        and t_start=t_start and t_end=t_end and tr=tr]) simp_all

lemma catch_block_invoked:
  "invoked (catch_block orc t_start t_catch q err tr) = invoked tr"
  by (cases rule: catch_block_outcome [where orc=orc and tr=tr and err=err and q=q
        and t_catch=t_catch and t_start=t_start]) simp_all

lemma resume_invoked:
  "invoked (processExecution_resume orc idn cs uuid t_start t_end t_catch q tr) = invoked tr"
proof (cases "try_block orc idn cs uuid t_start t_end q tr")
  case (Pair r tr')
  then have "invoked tr' = invoked tr"
    using try_block_invoked [of orc idn cs uuid t_start t_end q tr] by simp
  then show ?thesis using Pair
    by (cases r) (simp_all add: processExecution_resume_def catch_block_invoked)
qed

lemma commit_invoked: "invoked (snd (commit orc e tr)) = invoked tr"
  by (simp add: commit_def split: option.splits)

lemma commit_completed_ids:
  "\<not> is_completed e \<Longrightarrow> completed_ids (snd (commit orc e tr)) = completed_ids tr"
  by (cases e) (simp_all add: commit_def split: option.splits)

lemma claim_pending_view:
  "invoked (claim_pending orc idn ks entries tr) = invoked tr \<and>
   completed_ids (claim_pending orc idn ks entries tr) = completed_ids tr"
  by (simp add: claim_pending_def commit_invoked commit_completed_ids
      split: option.splits list.splits)

lemma heartbeat_view: "same_ledger_view a (heartbeat orc idn now a)"
  by (simp add: same_ledger_view_def heartbeat_def commit_def split: option.splits)

lemma shutdown_view: "same_ledger_view a (shutdown orc idn ss a)"
  by (simp add: same_ledger_view_def shutdown_def Let_def release_def commit_def
      split: option.splits)


lemma same_ledger_view_trans:
  "same_ledger_view a b \<Longrightarrow> same_ledger_view b c \<Longrightarrow> same_ledger_view a c"
  by (simp add: same_ledger_view_def)

lemma error_listener_view: "same_ledger_view a (error_listener orc idn ss m a)"
proof -
  have "same_ledger_view a (a\<lparr>trace := trace a @ [ConsoleError m]\<rparr>)"
    by (simp add: same_ledger_view_def)
  then have "same_ledger_view a (shutdown orc idn ss (a\<lparr>trace := trace a @ [ConsoleError m]\<rparr>))"
    using shutdown_view same_ledger_view_trans by blast
  then show ?thesis by (simp add: error_listener_def same_ledger_view_def)
qed

lemma shutdown_resume_view: "same_ledger_view a (shutdown_resume orc idn ss a)"
proof (cases ss)
  case None
  then show ?thesis by (simp add: shutdown_resume_def same_ledger_view_def)
next
  case (Some r)
  show ?thesis
  proof (cases r)
    case None
    then show ?thesis using Some by (simp add: shutdown_resume_def same_ledger_view_def)
  next
    case (Some x)
    then show ?thesis using \<open>ss = Some r\<close> error_listener_view
      by (simp add: shutdown_resume_def)
  qed
qed

lemma continue_loop_inv:
  assumes inv: "distinct (invoked (trace a))" "set (invoked (trace a)) \<subseteq> processedExecutions a"
      and i: "i < length (tasks a)"
      and rest: "distinct (awaiting (take i (tasks a)) @ awaiting (drop (Suc i) (tasks a)))"
        "set (awaiting (take i (tasks a)) @ awaiting (drop (Suc i) (tasks a)))
           \<subseteq> set (invoked (trace a))"
      and comp: "distinct (completed_ids (trace a))"
        "set (completed_ids (trace a)) \<subseteq> set (invoked (trace a))"
        "set (completed_ids (trace a))
           \<inter> set (awaiting (take i (tasks a)) @ awaiting (drop (Suc i) (tasks a))) = {}"
  shows "ledger_inv (continue_loop i es a)"
proof (cases rule: assigned_loop_outcome [of es a])
  case finished
  then show ?thesis using assms
    by (simp add: continue_loop_def set_task_def ledger_inv_def)
next
  case (suspended e r)
  have fresh: "entry_id e \<notin> set (invoked (trace a))"
    using suspended(2) inv(2) by auto
  show ?thesis using assms suspended(1) fresh
    by (auto simp: continue_loop_def set_task_def ledger_inv_def awaiting_update)
qed

lemma run_task_inv:
  assumes "ledger_inv a"
  shows "ledger_inv (run_task orc idn ss i inp a)"
proof (cases "i < length (tasks a)")
  case False
  then show ?thesis using assms by (simp add: run_task_def)
next
  case True
  note split = awaiting_split [OF True]
  show ?thesis
  proof (cases "tasks a ! i")
    case (AssignedTimer entries)
    have "ledger_inv (continue_loop i entries a)"
      using assms split AssignedTimer True
      by (intro continue_loop_inv) (auto simp: ledger_inv_def)
    then show ?thesis using True AssignedTimer by (simp add: run_task_def)
  next
    case (AssignedAwait q rest)
    let ?tr = "processExecution_resume orc idn (in_cells inp) (in_uuid inp)
                 (in_start inp) (in_end inp) (in_catch inp) q (trace a)"
    let ?a = "a\<lparr>trace := ?tr\<rparr>"
    have inv: "invoked ?tr = invoked (trace a)" by (rule resume_invoked)
    have q_await: "entry_id q \<in> set (awaiting (tasks a))"
      and q_rest: "entry_id q \<notin> set (awaiting (take i (tasks a)) @ awaiting (drop (Suc i) (tasks a)))"
      using assms split AssignedAwait by (auto simp: ledger_inv_def)
    have q_new: "entry_id q \<notin> set (completed_ids (trace a))"
      and q_inv: "entry_id q \<in> set (invoked (trace a))"
      using assms q_await by (auto simp: ledger_inv_def)
    have comp: "completed_ids ?tr = completed_ids (trace a)
                \<or> completed_ids ?tr = completed_ids (trace a) @ [entry_id q]"
      by (rule resume_completed_ids)
    have "ledger_inv (continue_loop i rest ?a)"
    proof (rule continue_loop_inv)
      show "distinct (invoked (trace ?a))" using assms inv by (simp add: ledger_inv_def)
      show "set (invoked (trace ?a)) \<subseteq> processedExecutions ?a"
        using assms inv by (simp add: ledger_inv_def)
      show "i < length (tasks ?a)" using True by simp
      show "distinct (awaiting (take i (tasks ?a)) @ awaiting (drop (Suc i) (tasks ?a)))"
        using assms split by (auto simp: ledger_inv_def)
      show "set (awaiting (take i (tasks ?a)) @ awaiting (drop (Suc i) (tasks ?a)))
              \<subseteq> set (invoked (trace ?a))"
        using assms split inv by (auto simp: ledger_inv_def)
      show "distinct (completed_ids (trace ?a))"
        using assms comp q_new by (auto simp: ledger_inv_def)
      show "set (completed_ids (trace ?a)) \<subseteq> set (invoked (trace ?a))"
        using assms comp q_inv inv by (auto simp: ledger_inv_def)
      show "set (completed_ids (trace ?a))
              \<inter> set (awaiting (take i (tasks ?a)) @ awaiting (drop (Suc i) (tasks ?a))) = {}"
        using assms comp q_rest split by (auto simp: ledger_inv_def)
    qed
    then show ?thesis using True AssignedAwait by (simp add: run_task_def)
  next
    case (PendingTimer entries)
    have "same_ledger_view a (set_task i None
             (a\<lparr>trace := claim_pending orc idn (in_kernelSessions inp) entries (trace a)\<rparr>))"
      using split PendingTimer by (simp add: same_ledger_view_def set_task_def claim_pending_view)
    then show ?thesis using assms True PendingTimer same_ledger_view_inv
      by (simp add: run_task_def)
  next
    case ShutdownAwait
    have "same_ledger_view a (set_task i None a)"
      using split ShutdownAwait by (simp add: same_ledger_view_def set_task_def)
    then have "same_ledger_view a (shutdown_resume orc idn ss (set_task i None a))"
      using shutdown_resume_view same_ledger_view_trans by blast
    then show ?thesis using assms True ShutdownAwait same_ledger_view_inv
      by (simp add: run_task_def)
  qed
qed

lemma step_inv:
  assumes "ledger_inv a"
  shows "ledger_inv (step orc idn ss t a)"
proof (cases "exited a \<noteq> None \<or> (isShuttingDown a \<and> terminated a \<noteq> None)")
  case True
  then show ?thesis using assms by (simp add: step_def)
next
  case False
  show ?thesis
  proof (cases t)
    case (AssignedUpdate entries)
    then show ?thesis using assms False
      by (simp add: step_def assignedWork_onUpdate_def ledger_inv_def)
  next
    case (PendingUpdate entries)
    then show ?thesis using assms False
      by (simp add: step_def pendingWork_onUpdate_def ledger_inv_def)
  next
    case (ActiveKernelsUpdate entries)
    then show ?thesis using assms False
      by (simp add: step_def activeKernels_onUpdate_def)
  next
    case (RunTask i inp)
    then show ?thesis using assms False run_task_inv by (simp add: step_def)
  next
    case (HeartbeatFires now)
    then show ?thesis using assms False same_ledger_view_inv [OF heartbeat_view]
      by (simp add: step_def)
  next
    case Signal
    then show ?thesis using assms False same_ledger_view_inv [OF shutdown_view]
      by (simp add: step_def)
  next
    case (UnhandledRejection x)
    then show ?thesis using assms False same_ledger_view_inv [OF error_listener_view]
      by (simp add: step_def)
  next
    case (UncaughtError x)
    then show ?thesis using assms False same_ledger_view_inv [OF error_listener_view]
      by (simp add: step_def)
  qed
qed

lemma run_inv: "ledger_inv a \<Longrightarrow> ledger_inv (run orc idn ss ts a)"
  by (induction ts arbitrary: a) (simp_all add: step_inv)

lemma duplicate_delivery_run:
  "run accept_all scenario_ident (Some None) duplicate_delivery scenario_agent =
     scenario_agent\<lparr>processedExecutions := {''w1''},
       trace := trace scenario_agent @
         [Invoked ''w1'', ConsoleLog (MsgProcessing ''c1''),
          Commit (ExecutionStarted ''w1'' ''c1'' ''s1'' 10),
          Commit (CellOutputsCleared ''c1'' ''kernel-k1''),
          Commit (CellOutputAdded ''u1'' ''c1'' ''execute_result'' ''print(1)'' 0),
          Commit (ExecutionCompleted ''w1'' ''c1'' ''success'' None 12 2),
          ConsoleLog (MsgCompleted 2)]\<rparr>"
  by (simp add: duplicate_delivery_def scenario_defs loop_defs accept_all_def)

text \<open>
  Claim C1. From the state \<open>startup\<close> leaves, after any sequence of turns of the event
  loop (so for any number of deliveries of the same entries, in any interleaving with the
  timer callbacks and the suspended executions): no identifier was handed to
  \<^verbatim>\<open>processExecution\<close> twice, and every identifier handed over, as every identifier whose
  execution is suspended, is in the ledger. The loop skips an entry whose identifier is in
  the ledger. For an entry whose identifier is not in it, the loop inserts the identifier
  and calls \<^verbatim>\<open>processExecution\<close> in the same turn, and only then suspends.
\<close>

theorem dedup_ledger_invokes_at_most_once:
  assumes "startup orc cfg idn sc hb = Running a0"
  shows "distinct (invoked (trace (run orc idn ss ts a0)))
       \<and> set (invoked (trace (run orc idn ss ts a0)))
            \<subseteq> processedExecutions (run orc idn ss ts a0)
       \<and> set (awaiting (tasks (run orc idn ss ts a0)))
            \<subseteq> processedExecutions (run orc idn ss ts a0)
       \<and> (entry_id e \<in> processedExecutions a \<longrightarrow>
            assigned_loop (e # rest) a = assigned_loop rest a)
       \<and> (entry_id e \<notin> processedExecutions b \<longrightarrow>
            assigned_loop (e # rest) b =
              (Some (AssignedAwait e rest),
               b\<lparr>processedExecutions := insert (entry_id e) (processedExecutions b),
                 trace := trace b @ [Invoked (entry_id e),
                                     ConsoleLog (MsgProcessing (cellId e))]\<rparr>))"
proof -
  have "ledger_inv (run orc idn ss ts a0)"
    using startup_Running [OF assms] run_inv by blast
  then show ?thesis by (auto simp: ledger_inv_def processExecution_begin_def)
qed

text \<open>
  The duplicate delivery of section 8 as an instance of the theorem for C1: the entry is
  handed over once, it is in the ledger afterwards, and a third delivery is skipped.
\<close>

theorem dedup_ledger_invokes_at_most_once_witness:
  "startup accept_all scenario_config scenario_ident None 0 = Running scenario_agent
   \<and> invoked (trace (run accept_all scenario_ident (Some None) duplicate_delivery
                       scenario_agent)) = [''w1'']
   \<and> entry_id (scenario_w1 ''assigned'')
        \<in> processedExecutions (run accept_all scenario_ident (Some None) duplicate_delivery
                                 scenario_agent)
   \<and> entry_id (scenario_w1 ''assigned'') \<notin> processedExecutions scenario_agent
   \<and> assigned_loop [scenario_w1 ''assigned'']
        (run accept_all scenario_ident (Some None) duplicate_delivery scenario_agent)
       = (None, run accept_all scenario_ident (Some None) duplicate_delivery scenario_agent)
   \<and> fst (assigned_loop [scenario_w1 ''assigned''] scenario_agent)
       = Some (AssignedAwait (scenario_w1 ''assigned'') [])"
  using dedup_ledger_invokes_at_most_once [OF scenario_startup, of "Some None"
      duplicate_delivery "scenario_w1 ''assigned''"
      "run accept_all scenario_ident (Some None) duplicate_delivery scenario_agent" "[]"
      scenario_agent]
    scenario_startup
  by (simp add: duplicate_delivery_run) (simp add: scenario_defs)

lemma rejected_completions_run:
  "run (rejecting is_completed) scenario_ident (Some None)
      [AssignedUpdate [scenario_w1 ''assigned''], RunTask 0 scenario_inputs,
       RunTask 0 scenario_inputs] scenario_agent =
     scenario_agent\<lparr>processedExecutions := {''w1''},
       trace := trace scenario_agent @
         [Invoked ''w1'', ConsoleLog (MsgProcessing ''c1''),
          Commit (ExecutionStarted ''w1'' ''c1'' ''s1'' 10),
          Commit (CellOutputsCleared ''c1'' ''kernel-k1''),
          Commit (CellOutputAdded ''u1'' ''c1'' ''execute_result'' ''print(1)'' 0),
          CommitThrew (ExecutionCompleted ''w1'' ''c1'' ''success'' None 12 2)
            (ErrorObj ''rejected''),
          ConsoleError (MsgExecutionError (ErrorObj ''rejected'')),
          CommitThrew (ExecutionCompleted ''w1'' ''c1'' ''error'' (Some ''rejected'') 13 3)
            (ErrorObj ''rejected''),
          ConsoleError (MsgMarkFailedError (ErrorObj ''rejected''))]\<rparr>"
  by (simp add: scenario_defs loop_defs rejecting_def)

text \<open>
  Claim C2, as amended. From the state \<open>startup\<close> leaves, after any sequence of turns,
  the log holds at most one execution-completed event per queue identifier, and only
  for identifiers that were handed to \<^verbatim>\<open>processExecution\<close>. One execution adds no
  completion or exactly one, for its own entry; it adds exactly one when the store
  accepts every completion commit.
\<close>

theorem completion_at_most_once:
  assumes "startup orc cfg idn sc hb = Running a0"
  shows "distinct (completed_ids (trace (run orc idn ss ts a0)))
       \<and> set (completed_ids (trace (run orc idn ss ts a0)))
            \<subseteq> set (invoked (trace (run orc idn ss ts a0)))
       \<and> (completed_ids (processExecution_resume orc idn cs uuid t_start t_end t_catch q tr)
             = completed_ids tr
          \<or> completed_ids (processExecution_resume orc idn cs uuid t_start t_end t_catch q tr)
             = completed_ids tr @ [entry_id q])
       \<and> ((\<forall>tr e. is_completed e \<longrightarrow> orc tr e = None) \<longrightarrow>
            completed_ids (processExecution_resume orc idn cs uuid t_start t_end t_catch q tr)
              = completed_ids tr @ [entry_id q])"
proof -
  have "ledger_inv (run orc idn ss ts a0)"
    using startup_Running [OF assms] run_inv by blast
  then show ?thesis
    using resume_completed_ids [of orc idn cs uuid t_start t_end t_catch q tr]
      resume_completed_ids_accepting [of orc idn cs uuid t_start t_end t_catch q tr]
    by (simp add: ledger_inv_def)
qed

text \<open>
  Claim C2 as stated fails for a store that rejects the completion commits: the entry is
  delivered, its execution runs to the end, no task is left, and the log holds no
  execution-completed event.
\<close>

theorem rejected_completions_leave_no_terminal_event:
  "startup (rejecting is_completed) scenario_config scenario_ident None 0
     = Running scenario_agent
   \<and> invoked (trace (run (rejecting is_completed) scenario_ident (Some None)
        [AssignedUpdate [scenario_w1 ''assigned''], RunTask 0 scenario_inputs,
         RunTask 0 scenario_inputs] scenario_agent)) = [''w1'']
   \<and> tasks (run (rejecting is_completed) scenario_ident (Some None)
        [AssignedUpdate [scenario_w1 ''assigned''], RunTask 0 scenario_inputs,
         RunTask 0 scenario_inputs] scenario_agent) = []
   \<and> completed_ids (trace (run (rejecting is_completed) scenario_ident (Some None)
        [AssignedUpdate [scenario_w1 ''assigned''], RunTask 0 scenario_inputs,
         RunTask 0 scenario_inputs] scenario_agent)) = []"
proof -
  have s: "startup (rejecting is_completed) scenario_config scenario_ident None 0
     = Running scenario_agent"
    by (simp add: rejecting_startup)
  show ?thesis
    using s by (simp only: rejected_completions_run) (simp add: scenario_defs)
qed

text \<open>The duplicate delivery with an accepting store, as an instance of the theorem for C2.\<close>

theorem completion_at_most_once_witness:
  "startup accept_all scenario_config scenario_ident None 0 = Running scenario_agent
   \<and> completed_ids (trace (run accept_all scenario_ident (Some None) duplicate_delivery
                             scenario_agent)) = [''w1'']
   \<and> completed_ids (processExecution_resume accept_all scenario_ident
        (in_cells scenario_inputs) ''u1'' 10 12 13 (scenario_w1 ''assigned'') [])
       = [''w1'']"
  using completion_at_most_once [OF scenario_startup, of "Some None" duplicate_delivery "in_cells scenario_inputs"
      "''u1''" 10 12 13 "scenario_w1 ''assigned''" "[]"]
    scenario_startup
  by (simp add: duplicate_delivery_run accept_all_def) (simp add: scenario_defs)

section \<open>Properties of shutdown\<close>


lemma try_block_teardown:
  "teardown (snd (try_block orc idn cs uuid t_start t_end q tr)) = teardown tr"
  by (cases rule: try_block_outcome [where q=q and cs=cs and orc=orc and idn=idn and uuid=uuid
        and t_start=t_start and t_end=t_end and tr=tr]) simp_all

lemma catch_block_teardown:
  "teardown (catch_block orc t_start t_catch q err tr) = teardown tr"
  by (cases rule: catch_block_outcome [where orc=orc and tr=tr and err=err and q=q
        and t_catch=t_catch and t_start=t_start]) simp_all

lemma resume_teardown:
  "teardown (processExecution_resume orc idn cs uuid t_start t_end t_catch q tr) = teardown tr"
proof (cases "try_block orc idn cs uuid t_start t_end q tr")
  case (Pair r tr')
  then have "teardown tr' = teardown tr"
    using try_block_teardown [of orc idn cs uuid t_start t_end q tr] by simp
  then show ?thesis using Pair
    by (cases r) (simp_all add: processExecution_resume_def catch_block_teardown)
qed

lemma claim_pending_teardown: "teardown (claim_pending orc idn ks entries tr) = teardown tr"
  by (simp add: claim_pending_def commit_def split: option.splits list.splits)

text \<open>What a turn of the loop leaves untouched, whatever the task it runs.\<close>

lemma continue_loop_fields:
  "isShuttingDown (continue_loop i es a) = isShuttingDown a \<and>
   exited (continue_loop i es a) = exited a \<and>
   terminated (continue_loop i es a) = terminated a \<and>
   assignedWorkSubscription (continue_loop i es a) = assignedWorkSubscription a \<and>
   pendingWorkSubscription (continue_loop i es a) = pendingWorkSubscription a \<and>
   activeKernelsSubscription (continue_loop i es a) = activeKernelsSubscription a \<and>
   heartbeatInterval (continue_loop i es a) = heartbeatInterval a \<and>
   teardown (trace (continue_loop i es a)) = teardown (trace a)"
  by (cases rule: assigned_loop_outcome [of es a])
     (simp_all add: continue_loop_def set_task_def)

lemma continue_loop_tasks:
  "ShutdownAwait \<notin> set (tasks a) \<Longrightarrow> ShutdownAwait \<notin> set (tasks (continue_loop i es a))"
proof (cases rule: assigned_loop_outcome [of es a])
  case finished
  assume "ShutdownAwait \<notin> set (tasks a)"
  then show ?thesis using finished
    by (auto simp: continue_loop_def set_task_def dest: in_set_takeD in_set_dropD)
next
  case (suspended e r)
  assume "ShutdownAwait \<notin> set (tasks a)"
  then show ?thesis using suspended(1) set_update_subset_insert [of "tasks a" i "AssignedAwait e r"]
    by (auto simp: continue_loop_def set_task_def)
qed

lemma shutdown_flag_set: "isShuttingDown a \<Longrightarrow> shutdown orc idn ss a = a"
  by (simp add: shutdown_def)

lemma shutdown_first:
  assumes "before_shutdown a"
  shows "shutdown orc idn ss a =
           a\<lparr>isShuttingDown := True, heartbeatInterval := False,
             assignedWorkSubscription := False, pendingWorkSubscription := False,
             activeKernelsSubscription := False, tasks := tasks a @ [ShutdownAwait],
             trace := trace a @
               [ConsoleLog MsgShuttingDown, ClearInterval, Unsubscribe AssignedWork,
                Unsubscribe PendingWork, Unsubscribe ActiveKernels] @
               (case orc (trace a @ [ConsoleLog MsgShuttingDown, ClearInterval,
                           Unsubscribe AssignedWork, Unsubscribe PendingWork,
                           Unsubscribe ActiveKernels])
                         (KernelSessionTerminated (SESSION_ID idn) ''shutdown'') of
                  None \<Rightarrow> [Commit (KernelSessionTerminated (SESSION_ID idn) ''shutdown'')]
                | Some x \<Rightarrow> [CommitThrew (KernelSessionTerminated (SESSION_ID idn) ''shutdown'') x,
                             ConsoleWarn (MsgTerminatedFailed x)]) @
               (case ss of None \<Rightarrow> [] | Some _ \<Rightarrow> [StoreShutdown])\<rparr>"
  using assms
  by (cases ss)
     (simp_all add: before_shutdown_def shutdown_def Let_def release_def commit_def
           split: option.splits)

lemma shutdown_first_after:
  assumes "before_shutdown a"
  shows "after_shutdown ss (shutdown orc idn ss a)"
  using assms unfolding shutdown_first [OF assms]
  by (simp add: after_shutdown_def before_shutdown_def teardown_sequence_def
      split: option.splits)

lemma after_shutdown_step:
  assumes "after_shutdown ss a"
  shows "after_shutdown ss (step orc idn ss t a)"
proof (cases "exited a \<noteq> None \<or> (isShuttingDown a \<and> terminated a \<noteq> None)")
  case True
  then show ?thesis using assms by (simp add: step_def)
next
  case False
  then have a: "isShuttingDown a" "exited a = None" "terminated a = None"
    "teardown (trace a) = teardown_sequence ss"
    using assms by (auto simp: after_shutdown_def)
  show ?thesis
  proof (cases t)
    case (RunTask i inp)
    show ?thesis
    proof (cases "i < length (tasks a)")
      case False
      then show ?thesis using assms RunTask a by (simp add: step_def run_task_def)
    next
      case True
      show ?thesis
      proof (cases "tasks a ! i")
        case (AssignedTimer entries)
        then show ?thesis using a RunTask True continue_loop_fields [of i entries a]
          by (simp add: step_def run_task_def after_shutdown_def)
      next
        case (AssignedAwait q rest)
        then show ?thesis using a RunTask True
            continue_loop_fields [of i rest "a\<lparr>trace := processExecution_resume orc idn
               (in_cells inp) (in_uuid inp) (in_start inp) (in_end inp) (in_catch inp) q
               (trace a)\<rparr>"]
          by (simp add: step_def run_task_def after_shutdown_def resume_teardown)
      next
        case (PendingTimer entries)
        then show ?thesis using a RunTask True
          by (simp add: step_def run_task_def after_shutdown_def set_task_def
              claim_pending_teardown)
      next
        case ShutdownAwait
        then show ?thesis using a RunTask True
          by (simp add: step_def run_task_def after_shutdown_def set_task_def
              shutdown_resume_def error_listener_def shutdown_def split: option.splits)
      qed
    qed
  qed (use a in \<open>simp_all add: step_def assignedWork_onUpdate_def after_shutdown_def
        pendingWork_onUpdate_def activeKernels_onUpdate_def heartbeat_def shutdown_def
        error_listener_def\<close>)
qed

lemma after_shutdown_run: "after_shutdown ss a \<Longrightarrow> after_shutdown ss (run orc idn ss ts a)"
  by (induction ts arbitrary: a) (simp_all add: after_shutdown_step)

lemma before_shutdown_step:
  assumes "before_shutdown a" "\<not> is_trigger t"
  shows "before_shutdown (step orc idn ss t a)"
proof -
  have a: "\<not> isShuttingDown a" "exited a = None" "ShutdownAwait \<notin> set (tasks a)"
    "teardown (trace a) = []"
    using assms by (auto simp: before_shutdown_def)
  show ?thesis
  proof (cases t)
    case (RunTask i inp)
    show ?thesis
    proof (cases "i < length (tasks a)")
      case False
      then show ?thesis using assms RunTask a by (simp add: step_def run_task_def)
    next
      case True
      then have ne: "tasks a ! i \<noteq> ShutdownAwait" using a(3) by (metis nth_mem)
      show ?thesis
      proof (cases "tasks a ! i")
        case (AssignedTimer entries)
        then show ?thesis using assms RunTask True continue_loop_fields [of i entries a]
            continue_loop_tasks [of a i entries]
          by (simp add: step_def run_task_def before_shutdown_def)
      next
        case (AssignedAwait q rest)
        let ?a = "a\<lparr>trace := processExecution_resume orc idn
               (in_cells inp) (in_uuid inp) (in_start inp) (in_end inp) (in_catch inp) q
               (trace a)\<rparr>"
        show ?thesis using assms AssignedAwait RunTask True
            continue_loop_fields [of i rest ?a] continue_loop_tasks [of ?a i rest]
          by (simp add: step_def run_task_def before_shutdown_def resume_teardown)
      next
        case (PendingTimer entries)
        then show ?thesis using assms RunTask True
          by (auto simp: step_def run_task_def before_shutdown_def set_task_def
              claim_pending_teardown dest: in_set_takeD in_set_dropD)
      next
        case ShutdownAwait
        then show ?thesis using ne by simp
      qed
    qed
  next
    case (HeartbeatFires now)
    then show ?thesis using assms
      by (simp add: step_def before_shutdown_def heartbeat_def commit_def split: option.splits)
  qed (use assms in \<open>simp_all add: step_def before_shutdown_def assignedWork_onUpdate_def
        pendingWork_onUpdate_def activeKernels_onUpdate_def\<close>)
qed

lemma after_shutdown_terminated:
  "after_shutdown ss b \<Longrightarrow> after_shutdown ss (b\<lparr>terminated := n\<rparr>)"
  by (simp add: after_shutdown_def)

lemma trigger_step:
  assumes "before_shutdown a" "is_trigger t"
  shows "after_shutdown ss (step orc idn ss t a)"
proof -
  have alive: "exited a = None" "\<not> isShuttingDown a"
    using assms(1) by (simp_all add: before_shutdown_def)
  have listener: "after_shutdown ss (error_listener orc idn ss m a)" for m
  proof -
    have "before_shutdown (a\<lparr>trace := trace a @ [ConsoleError m]\<rparr>)"
      using assms(1) by (simp add: before_shutdown_def)
    then show ?thesis
      using shutdown_first_after after_shutdown_terminated by (simp add: error_listener_def)
  qed
  show ?thesis
  proof (cases t)
    case Signal
    then show ?thesis using assms(1) alive shutdown_first_after by (simp add: step_def)
  next
    case (UnhandledRejection x)
    then show ?thesis using alive listener by (simp add: step_def)
  next
    case (UncaughtError x)
    then show ?thesis using alive listener by (simp add: step_def)
  qed (use assms(2) in simp_all)
qed

lemma run_shutdown_phase:
  assumes "before_shutdown a"
  shows "if list_ex is_trigger ts then after_shutdown ss (run orc idn ss ts a)
         else before_shutdown (run orc idn ss ts a)"
  using assms
proof (induction ts arbitrary: a)
  case Nil
  then show ?case by simp
next
  case (Cons t ts)
  show ?case
  proof (cases "is_trigger t")
    case True
    then show ?thesis using Cons.prems trigger_step after_shutdown_run by simp
  next
    case False
    then show ?thesis using Cons.IH [OF before_shutdown_step [OF Cons.prems False]] by simp
  qed
qed

lemma repeated_triggers_run:
  "run accept_all scenario_ident (Some None)
      [Signal, Signal, RunTask 0 scenario_inputs, UncaughtError (ErrorObj ''boom'')]
      scenario_agent =
     scenario_agent\<lparr>isShuttingDown := True, heartbeatInterval := False,
       assignedWorkSubscription := False, pendingWorkSubscription := False,
       activeKernelsSubscription := False,
       trace := trace scenario_agent @
         [ConsoleLog MsgShuttingDown, ClearInterval, Unsubscribe AssignedWork,
          Unsubscribe PendingWork, Unsubscribe ActiveKernels,
          Commit (KernelSessionTerminated ''s1'' ''shutdown''), StoreShutdown, Exit 0],
       exited := Some 0\<rparr>"
  by (simp add: scenario_defs loop_defs accept_all_def shutdown_def shutdown_resume_def
      release_def Let_def)

text \<open>
  Claim C7. From the state \<open>startup\<close> leaves, after any sequence of turns, the teardown
  steps in the trace are none when no trigger (signal, unhandled rejection, uncaught
  error) occurred, and otherwise the teardown sequence exactly once, followed by the
  exit once the process has exited, however many triggers occurred. A call of
  \<^verbatim>\<open>shutdown\<close> with the flag set returns the state unchanged.
\<close>

theorem shutdown_teardown_once:
  assumes "startup orc cfg idn sc hb = Running a0"
  shows "teardown (trace (run orc idn ss ts a0)) =
           (if list_ex is_trigger ts
            then teardown_sequence ss @
                   (case exited (run orc idn ss ts a0) of
                      None \<Rightarrow> [] | Some n \<Rightarrow> [ExitProcess 0])
            else [])
       \<and> (isShuttingDown a \<longrightarrow> shutdown orc idn ss a = a)"
proof -
  have b: "before_shutdown a0" using startup_Running [OF assms] by simp
  show ?thesis
    using run_shutdown_phase [OF b, of ts ss orc idn]
    by (auto simp: after_shutdown_def before_shutdown_def shutdown_flag_set)
qed

text \<open>Two signals and an uncaught error, as an instance of the theorem for C7.\<close>

theorem shutdown_teardown_once_witness:
  "startup accept_all scenario_config scenario_ident None 0 = Running scenario_agent
   \<and> list_ex is_trigger
        [Signal, Signal, RunTask 0 scenario_inputs, UncaughtError (ErrorObj ''boom'')]
   \<and> teardown (trace (run accept_all scenario_ident (Some None)
        [Signal, Signal, RunTask 0 scenario_inputs, UncaughtError (ErrorObj ''boom'')]
        scenario_agent))
       = [StopHeartbeat, ReleaseSubscription AssignedWork, ReleaseSubscription PendingWork,
          ReleaseSubscription ActiveKernels, CommitTerminated, CloseStore, ExitProcess 0]
   \<and> isShuttingDown (shutdown accept_all scenario_ident (Some None) scenario_agent)
   \<and> shutdown accept_all scenario_ident (Some None)
        (shutdown accept_all scenario_ident (Some None) scenario_agent)
       = shutdown accept_all scenario_ident (Some None) scenario_agent"
  using shutdown_teardown_once [OF scenario_startup, of "Some None"
      "[Signal, Signal, RunTask 0 scenario_inputs, UncaughtError (ErrorObj ''boom'')]"
      "shutdown accept_all scenario_ident (Some None) scenario_agent"]
    scenario_startup
  by (simp only: repeated_triggers_run)
     (simp add: teardown_sequence_def scenario_defs shutdown_def Let_def release_def
        commit_def accept_all_def)




end
